theory Spec2Isabelle
  imports Main "HOL-Library.Sublist"
begin

section \<open>Python and TensorFlow values\<close>

text \<open>
  The module \<^verbatim>\<open>deepobs/cifar100/cifar100_wrn.py\<close> builds a TensorFlow graph: every
  call of the \<^verbatim>\<open>tf\<close> API adds a node, a variable or a collection entry to the
  default graph. The embedding keeps the graph explicit: nodes are terms of the
  datatype \<open>tensor\<close>, the default graph is a record that every builder takes and
  returns, and every exception the builders can raise is a value of \<open>error\<close>.

  The module is written for Python 2 and the graph API of TensorFlow 1
  (\<^verbatim>\<open>xrange\<close>, \<^verbatim>\<open>tf.get_variable\<close>, \<^verbatim>\<open>tf.variable_scope\<close>, collections); the
  embedding gives it that semantics.

  Modelled sources of failure: Python's own exceptions (division by zero, list
  index), the variable store of \<^verbatim>\<open>tf.get_variable\<close> and the static shape
  inference of the operations used. Element types are not modelled.
\<close>

datatype error = ValueError | IndexError | ZeroDivisionError | TypeError

text \<open>
  Python floats stay symbolic: a literal or parameter is named by its text, and the
  arithmetic the module does on floats while building the graph is kept as a term.
\<close>

datatype pyfloat =
    FloatLit string
  | FloatOfInt nat
  | FloatSub pyfloat pyfloat
  | FloatDiv pyfloat pyfloat
  | FloatSqrt pyfloat

text \<open>A static dimension is known (\<open>Some n\<close>) or unknown (\<open>None\<close>).\<close>

type_synonym dim = "nat option"
type_synonym shape = "dim list"

datatype padding = SAME | VALID

datatype reuse_mode = NoReuse | Reuse | AutoReuse

datatype initializer =
    zeros_initializer
  | ones_initializer
  | random_normal_initializer pyfloat
  | constant_initializer pyfloat

text \<open>
  A variable is named by the path of variable scopes it was created in, followed
  by its own name; TensorFlow joins the components with \<^verbatim>\<open>/\<close>.
\<close>

record variable =
  var_name :: "string list"
  var_shape :: "nat list"
  var_init :: initializer
  var_trainable :: bool

datatype tensor =
    is_Input: Input string shape
  | is_ConstFloat: ConstFloat pyfloat
  | is_ConstString: ConstString string
  | is_Variable: Variable (the_variable: variable)
  | is_Assign: Assign variable tensor
  | is_Conv2d: Conv2d (conv_input: tensor) (conv_filter: tensor) (conv_stride: nat)
      (conv_padding: padding)
  | is_MaxPool: MaxPool tensor nat nat padding
  | is_MomentsMean: MomentsMean tensor "nat list"
  | is_MomentsVariance: MomentsVariance tensor "nat list"
  | is_BatchNormalization: BatchNormalization (bn_input: tensor) (bn_mean: tensor)
      (bn_variance: tensor) (bn_offset: tensor) (bn_scale: tensor) (bn_epsilon: pyfloat)
  | is_Relu: Relu (relu_input: tensor)
  | is_Identity: Identity tensor
  | is_Add: Add (add_left: tensor) (add_right: tensor)
  | is_Mul: Mul tensor tensor
  | is_MatMul: MatMul (matmul_left: tensor) (matmul_right: tensor)
  | is_ReduceMean: ReduceMean (reduce_input: tensor) (reduce_axes: "nat list")
  | is_ReduceMeanAll: ReduceMeanAll tensor
  | is_Reshape: Reshape (reshape_input: tensor) (reshape_dims: "int list")
  | is_SoftmaxCrossEntropy: SoftmaxCrossEntropy (xent_labels: tensor) (xent_logits: tensor)
  | is_L2Loss: L2Loss tensor
  | is_ArgMax: ArgMax tensor nat
  | is_Equal: Equal tensor tensor
  | is_Cast: Cast tensor
  | is_Cond: Cond (cond_pred: tensor) (cond_true: tensor) (cond_false: tensor)
  | is_Group: Group "tensor list"

record graph =
  variables :: "variable list"
  collections :: "string \<Rightarrow> tensor list"
  scope :: "string list"
  reuse :: reuse_mode

type_synonym 'a build = "graph \<Rightarrow> error + ('a \<times> graph)"

definition return :: "'a \<Rightarrow> 'a build" where
  "return x g = Inr (x, g)"

definition bind :: "'a build \<Rightarrow> ('a \<Rightarrow> 'b build) \<Rightarrow> 'b build" where
  "bind m f g = (case m g of Inl e \<Rightarrow> Inl e | Inr (x, g') \<Rightarrow> f x g')"

definition lift :: "error + 'a \<Rightarrow> 'a build" where
  "lift r g = (case r of Inl e \<Rightarrow> Inl e | Inr x \<Rightarrow> Inr (x, g))"

section \<open>Static shapes\<close>

fun broadcast_dim :: "dim \<Rightarrow> dim \<Rightarrow> dim option" where
  "broadcast_dim (Some a) (Some b) =
     (if a = b then Some (Some a)
      else if a = 1 then Some (Some b)
      else if b = 1 then Some (Some a)
      else None)"
| "broadcast_dim None (Some b) = Some (if b = 1 then None else Some b)"
| "broadcast_dim (Some a) None = Some (if a = 1 then None else Some a)"
| "broadcast_dim None None = Some None"

fun broadcast_rev :: "shape \<Rightarrow> shape \<Rightarrow> shape option" where
  "broadcast_rev [] ys = Some ys"
| "broadcast_rev (x # xs) [] = Some (x # xs)"
| "broadcast_rev (x # xs) (y # ys) =
     (case broadcast_dim x y of
        None \<Rightarrow> None
      | Some d \<Rightarrow> map_option ((#) d) (broadcast_rev xs ys))"

definition broadcast_shape :: "shape \<Rightarrow> shape \<Rightarrow> shape option" where
  "broadcast_shape a b = map_option rev (broadcast_rev (rev a) (rev b))"

fun drop_axes :: "nat \<Rightarrow> nat list \<Rightarrow> 'a list \<Rightarrow> 'a list" where
  "drop_axes i axes [] = []"
| "drop_axes i axes (d # ds) =
     (if i \<in> set axes then drop_axes (Suc i) axes ds
      else d # drop_axes (Suc i) axes ds)"

fun conv_dim :: "padding \<Rightarrow> dim \<Rightarrow> dim \<Rightarrow> nat \<Rightarrow> dim" where
  "conv_dim SAME (Some n) f s = Some ((n + s - 1) div s)"
| "conv_dim VALID (Some n) (Some f) s = Some ((n - f) div s + 1)"
| "conv_dim p n f s = None"

fun window_fits :: "padding \<Rightarrow> dim \<Rightarrow> dim \<Rightarrow> bool" where
  "window_fits VALID (Some n) (Some f) = (f \<le> n)"
| "window_fits p d f = True"

definition dims_compatible :: "dim \<Rightarrow> dim \<Rightarrow> bool" where
  "dims_compatible a b = (a = None \<or> b = None \<or> a = b)"

definition merge_dim :: "dim \<Rightarrow> dim \<Rightarrow> dim" where
  "merge_dim a b = (if a = b then a else None)"

definition fully_defined :: "shape \<Rightarrow> nat list option" where
  "fully_defined s = (if None \<in> set s then None else Some (map the s))"

definition reshape_shape :: "shape \<Rightarrow> int list \<Rightarrow> shape" where
  "reshape_shape s dims =
     (case fully_defined s of
        Some ns \<Rightarrow>
          map (\<lambda>d. if d = -1
                    then Some (prod_list ns div prod_list (map nat (filter (\<lambda>d. d \<noteq> -1) dims)))
                    else Some (nat d)) dims
      | None \<Rightarrow> map (\<lambda>d. if d = -1 then None else Some (nat d)) dims)"

text \<open>
  \<^verbatim>\<open>tf.nn.batch_normalization\<close> computes \<open>inv = rsqrt(variance + eps) * scale\<close> and
  returns \<open>x * inv + (offset - mean * inv)\<close>; every product and sum broadcasts.
\<close>

definition batch_normalization_shape ::
  "shape \<Rightarrow> shape \<Rightarrow> shape \<Rightarrow> shape \<Rightarrow> shape \<Rightarrow> shape option" where
  "batch_normalization_shape x m v b g =
     Option.bind (broadcast_shape v g) (\<lambda>iv.
     Option.bind (broadcast_shape x iv) (\<lambda>xi.
     Option.bind (broadcast_shape m iv) (\<lambda>mi.
     Option.bind (broadcast_shape b mi) (\<lambda>bm. broadcast_shape xi bm))))"

fun get_shape :: "tensor \<Rightarrow> shape" where
  "get_shape (Input n s) = s"
| "get_shape (ConstFloat c) = []"
| "get_shape (ConstString c) = []"
| "get_shape (Variable v) = map Some (var_shape v)"
| "get_shape (Assign v t) = map Some (var_shape v)"
| "get_shape (Conv2d x W s p) =
     (case (get_shape x, get_shape W) of
        ([n, h, w, c], [fh, fw, ci, co]) \<Rightarrow>
          [n, conv_dim p h fh s, conv_dim p w fw s, co]
      | _ \<Rightarrow> [])"
| "get_shape (MaxPool x k s p) =
     (case get_shape x of
        [n, h, w, c] \<Rightarrow> [n, conv_dim p h (Some k) s, conv_dim p w (Some k) s, c]
      | _ \<Rightarrow> [])"
| "get_shape (MomentsMean x axes) = drop_axes 0 axes (get_shape x)"
| "get_shape (MomentsVariance x axes) = drop_axes 0 axes (get_shape x)"
| "get_shape (BatchNormalization x m v b g e) =
     (case batch_normalization_shape (get_shape x) (get_shape m) (get_shape v)
             (get_shape b) (get_shape g) of
        None \<Rightarrow> [] | Some r \<Rightarrow> r)"
| "get_shape (Relu x) = get_shape x"
| "get_shape (Identity x) = get_shape x"
| "get_shape (Add a b) =
     (case broadcast_shape (get_shape a) (get_shape b) of None \<Rightarrow> [] | Some r \<Rightarrow> r)"
| "get_shape (Mul a b) =
     (case broadcast_shape (get_shape a) (get_shape b) of None \<Rightarrow> [] | Some r \<Rightarrow> r)"
| "get_shape (MatMul a b) =
     (case (get_shape a, get_shape b) of ([m, k], [k', p]) \<Rightarrow> [m, p] | _ \<Rightarrow> [])"
| "get_shape (ReduceMean x axes) = drop_axes 0 axes (get_shape x)"
| "get_shape (ReduceMeanAll x) = []"
| "get_shape (Reshape x dims) = reshape_shape (get_shape x) dims"
| "get_shape (SoftmaxCrossEntropy labels logits) = butlast (get_shape logits)"
| "get_shape (L2Loss x) = []"
| "get_shape (ArgMax x axis) = drop_axes 0 [axis] (get_shape x)"
| "get_shape (Equal a b) =
     (case broadcast_shape (get_shape a) (get_shape b) of None \<Rightarrow> [] | Some r \<Rightarrow> r)"
| "get_shape (Cast x) = get_shape x"
| "get_shape (Cond p a b) = map2 merge_dim (get_shape a) (get_shape b)"
| "get_shape (Group ts) = []"

section \<open>The TensorFlow operations the module calls\<close>

text \<open>
  Each operation checks the static shapes of its arguments, as TensorFlow does
  when the node is added to the graph, and raises \<open>ValueError\<close> when they do not fit.
\<close>

definition tf_nn_conv2d :: "tensor \<Rightarrow> tensor \<Rightarrow> nat \<Rightarrow> padding \<Rightarrow> error + tensor" where
  "tf_nn_conv2d x W stride pad =
     (let xs = get_shape x; ws = get_shape W in
      if length xs \<noteq> 4 \<or> length ws \<noteq> 4 then Inl ValueError
      else if stride = 0 then Inl ValueError
      else if \<not> dims_compatible (xs ! 3) (ws ! 2) then Inl ValueError
      else if \<not> (window_fits pad (xs ! 1) (ws ! 0) \<and> window_fits pad (xs ! 2) (ws ! 1))
        then Inl ValueError
      else Inr (Conv2d x W stride pad))"

definition tf_nn_max_pool :: "tensor \<Rightarrow> nat \<Rightarrow> nat \<Rightarrow> padding \<Rightarrow> error + tensor" where
  "tf_nn_max_pool x ksize stride pad =
     (let xs = get_shape x in
      if length xs \<noteq> 4 then Inl ValueError
      else if stride = 0 \<or> ksize = 0 then Inl ValueError
      else if \<not> (window_fits pad (xs ! 1) (Some ksize) \<and> window_fits pad (xs ! 2) (Some ksize))
        then Inl ValueError
      else Inr (MaxPool x ksize stride pad))"

definition tf_nn_moments :: "tensor \<Rightarrow> nat list \<Rightarrow> error + (tensor \<times> tensor)" where
  "tf_nn_moments x axes =
     (if \<forall>a \<in> set axes. a < length (get_shape x)
      then Inr (MomentsMean x axes, MomentsVariance x axes)
      else Inl ValueError)"

definition tf_nn_batch_normalization ::
  "tensor \<Rightarrow> tensor \<Rightarrow> tensor \<Rightarrow> tensor \<Rightarrow> tensor \<Rightarrow> pyfloat \<Rightarrow> error + tensor" where
  "tf_nn_batch_normalization x mean variance offset scale variance_epsilon =
     (case batch_normalization_shape (get_shape x) (get_shape mean) (get_shape variance)
             (get_shape offset) (get_shape scale) of
        None \<Rightarrow> Inl ValueError
      | Some r \<Rightarrow> Inr (BatchNormalization x mean variance offset scale variance_epsilon))"

definition tf_add :: "tensor \<Rightarrow> tensor \<Rightarrow> error + tensor" where
  "tf_add a b =
     (case broadcast_shape (get_shape a) (get_shape b) of
        None \<Rightarrow> Inl ValueError | Some r \<Rightarrow> Inr (Add a b))"

definition tf_multiply :: "tensor \<Rightarrow> tensor \<Rightarrow> error + tensor" where
  "tf_multiply a b =
     (case broadcast_shape (get_shape a) (get_shape b) of
        None \<Rightarrow> Inl ValueError | Some r \<Rightarrow> Inr (Mul a b))"

definition tf_equal :: "tensor \<Rightarrow> tensor \<Rightarrow> error + tensor" where
  "tf_equal a b =
     (case broadcast_shape (get_shape a) (get_shape b) of
        None \<Rightarrow> Inl ValueError | Some r \<Rightarrow> Inr (Equal a b))"

definition tf_matmul :: "tensor \<Rightarrow> tensor \<Rightarrow> error + tensor" where
  "tf_matmul a b =
     (let as = get_shape a; bs = get_shape b in
      if length as \<noteq> 2 \<or> length bs \<noteq> 2 then Inl ValueError
      else if \<not> dims_compatible (as ! 1) (bs ! 0) then Inl ValueError
      else Inr (MatMul a b))"

definition tf_reduce_mean :: "tensor \<Rightarrow> nat list \<Rightarrow> error + tensor" where
  "tf_reduce_mean x axes =
     (if \<forall>a \<in> set axes. a < length (get_shape x)
      then Inr (ReduceMean x axes) else Inl ValueError)"

text \<open>
  \<^verbatim>\<open>tf.reshape(x, dims)\<close> with a Python list \<open>dims\<close>: an entry \<open>None\<close> cannot be
  converted to a tensor (\<open>TypeError\<close>); at most one entry may be \<open>-1\<close>; when the
  shape of \<open>x\<close> is fully known the element counts have to agree.
\<close>

definition tf_reshape :: "tensor \<Rightarrow> int option list \<Rightarrow> error + tensor" where
  "tf_reshape x dims =
     (if None \<in> set dims then Inl TypeError
      else
        let ds = map the dims;
            known = prod_list (map nat (filter (\<lambda>d. d \<noteq> -1) ds)) in
        if 1 < length (filter (\<lambda>d. d = -1) ds) \<or> (\<exists>d \<in> set ds. d < -1) then Inl ValueError
        else
          (case fully_defined (get_shape x) of
             None \<Rightarrow> Inr (Reshape x ds)
           | Some ns \<Rightarrow>
               if -1 \<in> set ds
               then (if known = 0 \<or> prod_list ns mod known \<noteq> 0 then Inl ValueError
                     else Inr (Reshape x ds))
               else (if prod_list ns \<noteq> known then Inl ValueError else Inr (Reshape x ds))))"

definition tf_nn_softmax_cross_entropy_with_logits_v2 :: "tensor \<Rightarrow> tensor \<Rightarrow> error + tensor" where
  "tf_nn_softmax_cross_entropy_with_logits_v2 labels logits =
     (if get_shape logits = [] then Inl ValueError
      else case broadcast_shape (get_shape labels) (get_shape logits) of
             None \<Rightarrow> Inl ValueError
           | Some r \<Rightarrow> Inr (SoftmaxCrossEntropy labels logits))"

definition tf_argmax :: "tensor \<Rightarrow> nat \<Rightarrow> error + tensor" where
  "tf_argmax x axis =
     (if axis < length (get_shape x) then Inr (ArgMax x axis) else Inl ValueError)"

text \<open>
  \<^verbatim>\<open>tf.cond\<close> needs a scalar predicate. The module's two branches each return a
  pair; the result is the pair of the two selections under the same predicate.
\<close>

definition tf_cond :: "tensor \<Rightarrow> tensor \<times> tensor \<Rightarrow> tensor \<times> tensor \<Rightarrow> error + (tensor \<times> tensor)" where
  "tf_cond pred true_fn false_fn =
     (if get_shape pred = []
      then Inr (Cond pred (fst true_fn) (fst false_fn), Cond pred (snd true_fn) (snd false_fn))
      else Inl ValueError)"

definition assign :: "variable \<Rightarrow> tensor \<Rightarrow> error + tensor" where
  "assign v val =
     (if list_all2 dims_compatible (map Some (var_shape v)) (get_shape val)
      then Inr (Assign v val) else Inl ValueError)"

text \<open>Python list indexing: a negative index counts from the end.\<close>

definition py_index :: "'a list \<Rightarrow> int \<Rightarrow> error + 'a" where
  "py_index xs i =
     (if 0 \<le> i \<and> i < int (length xs) then Inr (xs ! nat i)
      else if i < 0 \<and> - int (length xs) \<le> i then Inr (xs ! nat (int (length xs) + i))
      else Inl IndexError)"

text \<open>The \<^verbatim>\<open>%d\<close> conversion of a non-negative integer.\<close>

definition digit_char :: "nat \<Rightarrow> char" where
  "digit_char d = ''0123456789'' ! d"

fun str_of_nat :: "nat \<Rightarrow> string" where
  "str_of_nat n =
     (if n < 10 then [digit_char n] else str_of_nat (n div 10) @ [digit_char (n mod 10)])"

declare str_of_nat.simps [simp del]

section \<open>Graph state: variable scopes, variables, collections\<close>

definition variable_scope :: "string \<Rightarrow> 'a build \<Rightarrow> 'a build" where
  "variable_scope name body g =
     (case body (g\<lparr>scope := scope g @ [name]\<rparr>) of
        Inl e \<Rightarrow> Inl e
      | Inr (r, g') \<Rightarrow> Inr (r, g'\<lparr>scope := scope g\<rparr>))"

definition get_collection :: "string \<Rightarrow> graph \<Rightarrow> tensor list" where
  "get_collection key g = collections g key"

definition add_to_collection :: "string \<Rightarrow> tensor \<Rightarrow> graph \<Rightarrow> graph" where
  "add_to_collection key item g =
     g\<lparr>collections := (collections g)(key := collections g key @ [item])\<rparr>"

definition UPDATE_OPS :: string where
  "UPDATE_OPS = ''update_ops''"

definition REGULARIZATION_LOSSES :: string where
  "REGULARIZATION_LOSSES = ''regularization_losses''"

text \<open>
  \<^verbatim>\<open>tf.get_variable\<close> in the current variable scope. Without reuse (the default)
  a second variable of the same name is an error; with \<open>reuse=True\<close> a missing one
  is; \<open>AUTO_REUSE\<close> creates the variable when it is missing. A new variable needs
  a fully defined shape, a reused one a compatible shape.
\<close>

definition get_variable ::
  "string \<Rightarrow> shape \<Rightarrow> initializer \<Rightarrow> bool \<Rightarrow> variable build" where
  "get_variable name shp init trainable g =
     (let full = scope g @ [name] in
      case find (\<lambda>v. var_name v = full) (variables g) of
        Some v \<Rightarrow>
          if reuse g = NoReuse then Inl ValueError
          else if \<not> list_all2 dims_compatible shp (map Some (var_shape v)) then Inl ValueError
          else Inr (v, g)
      | None \<Rightarrow>
          if reuse g = Reuse then Inl ValueError
          else (case fully_defined shp of
                  None \<Rightarrow> Inl ValueError
                | Some ns \<Rightarrow>
                    let v = \<lparr>var_name = full, var_shape = ns, var_init = init,
                             var_trainable = trainable\<rparr>
                    in Inr (v, g\<lparr>variables := variables g @ [v]\<rparr>)))"

section \<open>The layer builders of class \<open>set_up\<close>\<close>

definition batch_norm :: "tensor \<Rightarrow> tensor \<Rightarrow> pyfloat \<Rightarrow> string \<Rightarrow> tensor build" where
  "batch_norm x phase decay name =
     variable_scope name
      (bind (lift (tf_nn_moments x [0, 1, 2])) (\<lambda>(mean_batch, variance_batch).
       bind (get_variable ''mean_avg'' (get_shape mean_batch) zeros_initializer False) (\<lambda>mean_avg.
       bind (get_variable ''std_avg'' (get_shape variance_batch) ones_initializer False) (\<lambda>variance_avg.
       bind (get_variable ''beta'' (get_shape mean_batch) zeros_initializer True) (\<lambda>beta.
       bind (get_variable ''gamma'' (get_shape variance_batch) ones_initializer True) (\<lambda>gamma.
       bind (lift (tf_multiply (ConstFloat decay) (Variable mean_avg))) (\<lambda>m1.
       bind (lift (tf_multiply (ConstFloat (FloatSub (FloatLit ''1.0'') decay)) mean_batch)) (\<lambda>m2.
       bind (lift (tf_add m1 m2)) (\<lambda>m3.
       bind (lift (assign mean_avg m3)) (\<lambda>update_mean.
       bind (lift (tf_multiply (ConstFloat decay) (Variable variance_avg))) (\<lambda>v1.
       bind (lift (tf_multiply (ConstFloat (FloatSub (FloatLit ''1.0'') decay)) variance_batch)) (\<lambda>v2.
       bind (lift (tf_add v1 v2)) (\<lambda>v3.
       bind (lift (assign variance_avg v3)) (\<lambda>update_variance.
       bind (\<lambda>g. Inr ((), add_to_collection UPDATE_OPS update_mean g)) (\<lambda>_.
       bind (\<lambda>g. Inr ((), add_to_collection UPDATE_OPS update_variance g)) (\<lambda>_.
       bind (lift (tf_equal phase (ConstString ''train''))) (\<lambda>pred.
       bind (lift (tf_cond pred (mean_batch, variance_batch)
                                (Variable mean_avg, Variable variance_avg))) (\<lambda>(mean, variance).
       lift (tf_nn_batch_normalization x mean variance (Variable beta) (Variable gamma)
               (FloatLit ''1e-5''))))))))))))))))))))"

definition conv :: "tensor \<Rightarrow> nat \<Rightarrow> nat \<Rightarrow> nat \<Rightarrow> padding \<Rightarrow> string \<Rightarrow> tensor build" where
  "conv x filter_size out_channels stride pad name =
     (let in_shape = get_shape x in
      variable_scope name
       (if filter_size = 0 \<or> out_channels = 0 then lift (Inl ZeroDivisionError)
        else
          let init = random_normal_initializer
                (FloatSqrt (FloatDiv (FloatDiv (FloatDiv (FloatLit ''1.0'') (FloatOfInt filter_size))
                              (FloatOfInt filter_size)) (FloatOfInt out_channels))) in
          bind (lift (py_index in_shape 3)) (\<lambda>in_channels.
          bind (get_variable ''W'' [Some filter_size, Some filter_size, in_channels, Some out_channels]
                  init True) (\<lambda>W.
          bind (\<lambda>g. Inr ((), if Variable W \<notin> set (get_collection ''regularizable_variables'' g)
                             then add_to_collection ''regularizable_variables'' (Variable W) g
                             else g)) (\<lambda>_.
          lift (tf_nn_conv2d x (Variable W) stride pad))))))"

definition fc :: "tensor \<Rightarrow> nat \<Rightarrow> string \<Rightarrow> tensor build" where
  "fc x out_dim name =
     variable_scope name
      (if out_dim = 0 then lift (Inl ZeroDivisionError)
       else
         let initializer = random_normal_initializer
               (FloatSqrt (FloatDiv (FloatLit ''1.0'') (FloatOfInt out_dim))) in
         bind (lift (py_index (get_shape x) 1)) (\<lambda>in_dim.
         bind (get_variable ''W'' [in_dim, Some out_dim] initializer True) (\<lambda>W.
         bind (\<lambda>g. Inr ((), if Variable W \<notin> set (get_collection ''regularizable_variables'' g)
                            then add_to_collection ''regularizable_variables'' (Variable W) g
                            else g)) (\<lambda>_.
         bind (get_variable ''b'' [Some out_dim] (constant_initializer (FloatLit ''0.0'')) True) (\<lambda>b.
         bind (lift (tf_matmul x (Variable W))) (\<lambda>xW.
         lift (tf_add xW (Variable b))))))))"

section \<open>The network: \<open>set_up.set_up\<close> and the constructor\<close>

text \<open>
  The data-loading class \<^verbatim>\<open>cifar100_input.data_loading\<close> is not part of the module.
  It is a parameter: \<open>load\<close> is what its method \<^verbatim>\<open>load()\<close> returns (the image
  batch, the labels and the phase variable), the other three fields are its
  initialization operations.
\<close>

record data_loading =
  load :: "tensor \<times> tensor \<times> tensor"
  loader_train_init_op :: tensor
  loader_train_eval_init_op :: tensor
  loader_test_init_op :: tensor

record set_up_instance =
  data_loading :: data_loading
  losses :: tensor
  accuracy :: tensor
  train_init_op :: tensor
  train_eval_init_op :: tensor
  test_init_op :: tensor

definition filters :: "nat \<Rightarrow> nat list" where
  "filters k = [16, 16 * k, 32 * k, 64 * k]"

definition strides :: "nat list" where
  "strides = [1, 2, 2]"

text \<open>Lines 111 to 120: the shortcut of the first residual unit of block \<open>i\<close>.\<close>

definition first_unit_shortcut :: "nat \<Rightarrow> nat \<Rightarrow> tensor \<Rightarrow> tensor build" where
  "first_unit_shortcut k i x =
     bind (lift (py_index (filters k) (int i - 1))) (\<lambda>f_prev.
     bind (lift (py_index (filters k) (int i))) (\<lambda>f_i.
     bind (lift (py_index strides (int i - 1))) (\<lambda>stride.
       if f_prev = f_i then
         (if stride = 1 then return (Identity x)
          else lift (tf_nn_max_pool x stride stride VALID))
       else conv x 1 f_i stride SAME ''shortcut'')))"

definition first_unit :: "nat \<Rightarrow> tensor \<Rightarrow> pyfloat \<Rightarrow> nat \<Rightarrow> tensor \<Rightarrow> tensor build" where
  "first_unit k phase bn_decay i x =
     variable_scope (''unit_'' @ str_of_nat i @ ''_0'')
      (bind (batch_norm x phase bn_decay ''bn_1'') (\<lambda>x.
       bind (return (Relu x)) (\<lambda>x.
       bind (first_unit_shortcut k i x) (\<lambda>shortcut.
       bind (lift (py_index (filters k) (int i))) (\<lambda>out_channels.
       bind (lift (py_index strides (int i - 1))) (\<lambda>stride.
       bind (conv x 3 out_channels stride SAME ''conv_1'') (\<lambda>x.
       bind (batch_norm x phase bn_decay ''bn_2'') (\<lambda>x.
       bind (return (Relu x)) (\<lambda>x.
       bind (conv x 3 out_channels 1 SAME ''conv_2'') (\<lambda>x.
       lift (tf_add x shortcut)))))))))))"

definition further_unit :: "nat \<Rightarrow> tensor \<Rightarrow> pyfloat \<Rightarrow> nat \<Rightarrow> nat \<Rightarrow> tensor \<Rightarrow> tensor build" where
  "further_unit k phase bn_decay i j x =
     variable_scope (''unit_'' @ str_of_nat i @ ''_'' @ str_of_nat j)
      (bind (return x) (\<lambda>shortcut.
       bind (batch_norm x phase bn_decay ''bn_1'') (\<lambda>x.
       bind (return (Relu x)) (\<lambda>x.
       bind (lift (py_index (filters k) (int i))) (\<lambda>out_channels.
       bind (conv x 3 out_channels 1 SAME ''conv_1'') (\<lambda>x.
       bind (batch_norm x phase bn_decay ''bn_2'') (\<lambda>x.
       bind (return (Relu x)) (\<lambda>x.
       bind (conv x 3 out_channels 1 SAME ''conv_2'') (\<lambda>x.
       lift (tf_add x shortcut))))))))))"

text \<open>The inner loop \<^verbatim>\<open>for j in xrange(1, num_residual_units, 1)\<close>.\<close>

fun further_units ::
  "nat \<Rightarrow> tensor \<Rightarrow> pyfloat \<Rightarrow> nat \<Rightarrow> nat list \<Rightarrow> tensor \<Rightarrow> tensor build" where
  "further_units k phase bn_decay i [] x = return x"
| "further_units k phase bn_decay i (j # js) x =
     bind (further_unit k phase bn_decay i j x) (further_units k phase bn_decay i js)"

text \<open>The outer loop \<^verbatim>\<open>for i in xrange(1, 4, 1)\<close>.\<close>

fun residual_blocks ::
  "nat \<Rightarrow> nat \<Rightarrow> tensor \<Rightarrow> pyfloat \<Rightarrow> nat list \<Rightarrow> tensor \<Rightarrow> tensor build" where
  "residual_blocks k num_residual_units phase bn_decay [] x = return x"
| "residual_blocks k num_residual_units phase bn_decay (i # is) x =
     bind (first_unit k phase bn_decay i x) (\<lambda>x.
     bind (further_units k phase bn_decay i [1..<num_residual_units] x)
       (residual_blocks k num_residual_units phase bn_decay is))"

text \<open>Lines 171 to 174: one regularization term for each collected weight.\<close>

fun add_weight_decay :: "pyfloat \<Rightarrow> tensor list \<Rightarrow> unit build" where
  "add_weight_decay weight_decay [] = return ()"
| "add_weight_decay weight_decay (W # Ws) =
     bind (lift (tf_multiply (ConstFloat weight_decay) (L2Loss W))) (\<lambda>term.
     bind (\<lambda>g. Inr ((), add_to_collection REGULARIZATION_LOSSES term g)) (\<lambda>_.
     add_weight_decay weight_decay Ws))"

definition last_unit :: "tensor \<Rightarrow> pyfloat \<Rightarrow> tensor \<Rightarrow> tensor build" where
  "last_unit phase bn_decay x =
     variable_scope ''unit_last''
      (bind (batch_norm x phase bn_decay ''batch_norm'') (\<lambda>x.
       bind (return (Relu x)) (\<lambda>x.
       lift (tf_reduce_mean x [1, 2]))))"

definition fully_connected :: "tensor \<Rightarrow> tensor build" where
  "fully_connected x =
     variable_scope ''fully-connected''
      (bind (lift (py_index (get_shape x) 1)) (\<lambda>x_shape_1.
       bind (lift (tf_reshape x [Some (- 1), map_option int x_shape_1])) (\<lambda>x.
       fc x 100 ''fc'')))"

definition set_up ::
  "data_loading \<Rightarrow> nat \<Rightarrow> nat \<Rightarrow> pyfloat \<Rightarrow> pyfloat \<Rightarrow> (tensor \<times> tensor) build" where
  "set_up dl num_residual_units k weight_decay bn_decay =
     (case load dl of (X, y, phase) \<Rightarrow>
      bind (conv X 3 16 1 SAME ''conv_0'') (\<lambda>x.
      bind (residual_blocks k num_residual_units phase bn_decay [1..<4] x) (\<lambda>x.
      bind (last_unit phase bn_decay x) (\<lambda>x.
      bind (fully_connected x) (\<lambda>linear_outputs.
      bind (lift (tf_nn_softmax_cross_entropy_with_logits_v2 y linear_outputs)) (\<lambda>losses.
      bind (\<lambda>g. add_weight_decay weight_decay (get_collection ''regularizable_variables'' g) g) (\<lambda>_.
      bind (lift (tf_argmax linear_outputs 1)) (\<lambda>y_pred.
      bind (lift (tf_argmax y 1)) (\<lambda>y_correct.
      bind (lift (tf_equal y_pred y_correct)) (\<lambda>correct_prediction.
      return (losses, ReduceMeanAll (Cast correct_prediction))))))))))))"

text \<open>
  The constructor \<^verbatim>\<open>__init__\<close>. Its first argument stands for the absent
  constructor \<^verbatim>\<open>cifar100_input.data_loading\<close>.
\<close>

definition set_up_init ::
  "(nat \<Rightarrow> data_loading build) \<Rightarrow> nat \<Rightarrow> nat \<Rightarrow> nat \<Rightarrow> pyfloat \<Rightarrow> pyfloat \<Rightarrow>
     set_up_instance build" where
  "set_up_init cifar100_input_data_loading batch_size num_residual_units k weight_decay bn_decay =
     bind (cifar100_input_data_loading batch_size) (\<lambda>dl.
     bind (set_up dl num_residual_units k weight_decay bn_decay) (\<lambda>(l, a).
     return \<lparr>data_loading = dl, losses = l, accuracy = a,
             train_init_op = Group [loader_train_init_op dl],
             train_eval_init_op = Group [loader_train_eval_init_op dl],
             test_init_op = Group [loader_test_init_op dl]\<rparr>))"

definition get :: "set_up_instance \<Rightarrow> tensor \<times> tensor" where
  "get self = (losses self, accuracy self)"

section \<open>Notions used to state the properties\<close>

subsection \<open>What a session computes at a \<open>tf.cond\<close>\<close>

text \<open>
  A string constant evaluates to its text; every other string tensor (the phase
  variable of the data loader) has the value the state \<open>\<sigma>\<close> gives it.
  \<^verbatim>\<open>tf.equal\<close> compares the two values, and \<^verbatim>\<open>tf.cond\<close> yields its first branch
  when the predicate holds and its second branch otherwise.
\<close>

fun eval_string :: "(tensor \<Rightarrow> string) \<Rightarrow> tensor \<Rightarrow> string" where
  "eval_string \<sigma> (ConstString s) = s"
| "eval_string \<sigma> t = \<sigma> t"

fun eval_pred :: "(tensor \<Rightarrow> string) \<Rightarrow> tensor \<Rightarrow> bool" where
  "eval_pred \<sigma> (Equal a b) = (eval_string \<sigma> a = eval_string \<sigma> b)"
| "eval_pred \<sigma> t = False"

fun cond_select :: "(tensor \<Rightarrow> string) \<Rightarrow> tensor \<Rightarrow> tensor" where
  "cond_select \<sigma> (Cond p a b) = (if eval_pred \<sigma> p then a else b)"
| "cond_select \<sigma> t = t"

subsection \<open>The variables a node assigns to when it is run\<close>

fun assigned :: "tensor \<Rightarrow> variable list" where
  "assigned (Input n s) = []"
| "assigned (ConstFloat c) = []"
| "assigned (ConstString c) = []"
| "assigned (Variable v) = []"
| "assigned (Assign v t) = v # assigned t"
| "assigned (Conv2d x W s p) = assigned x @ assigned W"
| "assigned (MaxPool x k s p) = assigned x"
| "assigned (MomentsMean x axes) = assigned x"
| "assigned (MomentsVariance x axes) = assigned x"
| "assigned (BatchNormalization x m v b g e) =
     assigned x @ assigned m @ assigned v @ assigned b @ assigned g"
| "assigned (Relu x) = assigned x"
| "assigned (Identity x) = assigned x"
| "assigned (Add a b) = assigned a @ assigned b"
| "assigned (Mul a b) = assigned a @ assigned b"
| "assigned (MatMul a b) = assigned a @ assigned b"
| "assigned (ReduceMean x axes) = assigned x"
| "assigned (ReduceMeanAll x) = assigned x"
| "assigned (Reshape x dims) = assigned x"
| "assigned (SoftmaxCrossEntropy labels logits) = assigned labels @ assigned logits"
| "assigned (L2Loss x) = assigned x"
| "assigned (ArgMax x axis) = assigned x"
| "assigned (Equal a b) = assigned a @ assigned b"
| "assigned (Cast x) = assigned x"
| "assigned (Cond p a b) = assigned p @ assigned a @ assigned b"
| "assigned (Group ts) = concat (map assigned ts)"

subsection \<open>Weights and the bookkeeping of the collections\<close>

text \<open>\<open>conv\<close> and \<open>fc\<close> name their weight \<^verbatim>\<open>W\<close>; no other variable of the module has that name.\<close>

definition is_weight :: "variable \<Rightarrow> bool" where
  "is_weight v \<longleftrightarrow> last (var_name v) = ''W''"

definition regularizable_consistent :: "graph \<Rightarrow> bool" where
  "regularizable_consistent g \<longleftrightarrow>
     get_collection ''regularizable_variables'' g = map Variable (filter is_weight (variables g)) \<and>
     distinct (map var_name (variables g))"

text \<open>
  \<open>builds_under p g g'\<close>: what every layer builder working below the scope path \<open>p\<close>
  leaves alone and what it may add.
\<close>

definition builds_under :: "string list \<Rightarrow> graph \<Rightarrow> graph \<Rightarrow> bool" where
  "builds_under p g g' \<longleftrightarrow>
     scope g' = scope g \<and> reuse g' = reuse g \<and>
     (\<forall>key. key \<noteq> ''regularizable_variables'' \<and> key \<noteq> UPDATE_OPS \<longrightarrow>
        collections g' key = collections g key) \<and>
     (\<forall>v \<in> set (variables g'). v \<in> set (variables g) \<or> prefix p (var_name v)) \<and>
     set (variables g) \<subseteq> set (variables g') \<and>
     (regularizable_consistent g \<longrightarrow> regularizable_consistent g')"

definition unused :: "string list \<Rightarrow> graph \<Rightarrow> bool" where
  "unused p g \<longleftrightarrow> (\<forall>v \<in> set (variables g). \<not> prefix p (var_name v))"

subsection \<open>Reading the architecture off the graph\<close>

definition is_kernel :: "tensor \<Rightarrow> nat \<Rightarrow> nat \<Rightarrow> bool" where
  "is_kernel W f c \<longleftrightarrow>
     is_Variable W \<and> length (var_shape (the_variable W)) = 4 \<and>
     var_shape (the_variable W) ! 0 = f \<and> var_shape (the_variable W) ! 1 = f \<and>
     var_shape (the_variable W) ! 3 = c"

text \<open>\<open>is_conv t x f c s\<close>: \<open>t\<close> convolves \<open>x\<close> with an \<open>f \<times> f\<close> kernel to \<open>c\<close> channels at stride \<open>s\<close>.\<close>

definition is_conv :: "tensor \<Rightarrow> tensor \<Rightarrow> nat \<Rightarrow> nat \<Rightarrow> nat \<Rightarrow> bool" where
  "is_conv t x f c s \<longleftrightarrow>
     is_Conv2d t \<and> conv_input t = x \<and> is_kernel (conv_filter t) f c \<and>
     conv_stride t = s \<and> conv_padding t = SAME"

text \<open>\<open>is_bn_relu t x\<close>: \<open>t\<close> is \<open>relu(batch_norm(x))\<close>.\<close>

definition is_bn_relu :: "tensor \<Rightarrow> tensor \<Rightarrow> bool" where
  "is_bn_relu t x \<longleftrightarrow>
     is_Relu t \<and> is_BatchNormalization (relu_input t) \<and> bn_input (relu_input t) = x"

text \<open>
  The residual branch \<open>conv3x3(c, 1)(relu(batch_norm(conv3x3(c, s)(h))))\<close>:
  \<open>residual_input c s r\<close> is its input \<open>h\<close> when \<open>r\<close> has this form.
\<close>

definition residual_input :: "nat \<Rightarrow> nat \<Rightarrow> tensor \<Rightarrow> tensor option" where
  "residual_input c s r =
     (if is_Conv2d r \<and> is_conv r (conv_input r) 3 c 1 \<and>
         is_Relu (conv_input r) \<and> is_BatchNormalization (relu_input (conv_input r)) \<and>
         (let m = bn_input (relu_input (conv_input r)) in
          is_Conv2d m \<and> is_conv m (conv_input m) 3 c s)
      then Some (conv_input (bn_input (relu_input (conv_input r))))
      else None)"

datatype unit_desc = FirstUnit nat nat | FurtherUnit nat

text \<open>
  \<open>unit_input u t\<close>: when \<open>t\<close> is a residual unit of description \<open>u\<close>, that is a
  sum of a residual branch and a shortcut, the tensor the unit was applied to.
  The first unit of a block branches after its batch norm and relu, and its
  shortcut is the identity or a \<open>1 \<times> 1\<close> convolution; a further unit adds its own
  input.
\<close>

fun unit_input :: "unit_desc \<Rightarrow> tensor \<Rightarrow> tensor option" where
  "unit_input (FirstUnit c s) t =
     (if is_Add t then
        (case residual_input c s (add_left t) of
           None \<Rightarrow> None
         | Some h \<Rightarrow>
             if is_Relu h \<and> is_BatchNormalization (relu_input h) \<and>
                (add_right t = Identity h \<and> s = 1 \<or> is_conv (add_right t) h 1 c s)
             then Some (bn_input (relu_input h)) else None)
      else None)"
| "unit_input (FurtherUnit c) t =
     (if is_Add t then
        (case residual_input c 1 (add_left t) of
           None \<Rightarrow> None
         | Some h \<Rightarrow> if is_bn_relu h (add_right t) then Some (add_right t) else None)
      else None)"

text \<open>Peel the listed units off \<open>t\<close>, the last unit first.\<close>

fun strip_units :: "unit_desc list \<Rightarrow> tensor \<Rightarrow> tensor option" where
  "strip_units [] t = Some t"
| "strip_units (u # us) t =
     (case unit_input u t of None \<Rightarrow> None | Some x \<Rightarrow> strip_units us x)"

text \<open>
  The architecture as the documentation describes it: for each of the three
  blocks, \<open>n\<close> units of the block's width, the first one with the block's stride.
\<close>

definition block_units :: "nat \<Rightarrow> nat \<Rightarrow> nat \<Rightarrow> unit_desc list" where
  "block_units n c s = map (\<lambda>j. if j = 0 then FirstUnit c s else FurtherUnit c) [0..<n]"

definition wrn_units :: "nat \<Rightarrow> nat \<Rightarrow> unit_desc list" where
  "wrn_units n k = block_units n (16 * k) 1 @ block_units n (32 * k) 2 @ block_units n (64 * k) 2"

text \<open>The tensor the classification head of \<open>losses\<close> was applied to.\<close>

definition trunk_of :: "tensor \<Rightarrow> tensor" where
  "trunk_of l =
     bn_input (relu_input (reduce_input (reshape_input (matmul_left (add_left (xent_logits l))))))"

subsection \<open>Abbreviations for parts of the builders\<close>

text \<open>The initializer of a convolution kernel, the guarded registration of a weight
  in \<^verbatim>\<open>"regularizable_variables"\<close>, and the moving-average update of \<open>batch_norm\<close>.\<close>

definition conv_init :: "nat \<Rightarrow> nat \<Rightarrow> initializer" where
  "conv_init filter_size out_channels =
     random_normal_initializer
       (FloatSqrt (FloatDiv (FloatDiv (FloatDiv (FloatLit ''1.0'') (FloatOfInt filter_size))
          (FloatOfInt filter_size)) (FloatOfInt out_channels)))"

definition collect_weight :: "variable \<Rightarrow> graph \<Rightarrow> graph" where
  "collect_weight W g =
     (if Variable W \<notin> set (get_collection ''regularizable_variables'' g)
      then add_to_collection ''regularizable_variables'' (Variable W) g else g)"

definition moving_average_update :: "pyfloat \<Rightarrow> variable \<Rightarrow> tensor \<Rightarrow> tensor" where
  "moving_average_update decay avg batch =
     Assign avg (Add (Mul (ConstFloat decay) (Variable avg))
                     (Mul (ConstFloat (FloatSub (FloatLit ''1.0'') decay)) batch))"

text \<open>
  The residual branch shared by the first and the further units, the name of the
  variable scope of unit \<open>j\<close> of block \<open>i\<close>, one pass of the outer loop, and the
  regularization term of a weight.
\<close>

definition residual ::
  "tensor \<Rightarrow> pyfloat \<Rightarrow> nat \<Rightarrow> nat \<Rightarrow> tensor \<Rightarrow> tensor \<Rightarrow> tensor build" where
  "residual phase bn_decay out_channels stride x shortcut =
     bind (conv x 3 out_channels stride SAME ''conv_1'') (\<lambda>x.
     bind (batch_norm x phase bn_decay ''bn_2'') (\<lambda>x.
     bind (return (Relu x)) (\<lambda>x.
     bind (conv x 3 out_channels 1 SAME ''conv_2'') (\<lambda>x.
     lift (tf_add x shortcut)))))"

definition unit_name :: "nat \<Rightarrow> nat \<Rightarrow> string" where
  "unit_name i j = ''unit_'' @ str_of_nat i @ ''_'' @ str_of_nat j"

definition block :: "nat \<Rightarrow> nat \<Rightarrow> tensor \<Rightarrow> pyfloat \<Rightarrow> nat \<Rightarrow> tensor \<Rightarrow> tensor build" where
  "block k num_residual_units phase bn_decay i x =
     bind (first_unit k phase bn_decay i x)
       (further_units k phase bn_decay i [1..<num_residual_units])"

definition decay_term :: "pyfloat \<Rightarrow> tensor \<Rightarrow> tensor" where
  "decay_term weight_decay W = Mul (ConstFloat weight_decay) (L2Loss W)"

text \<open>\<open>keeps_unused N g g'\<close>: only the scope names in \<open>N\<close> were used on the way from \<open>g\<close> to \<open>g'\<close>.\<close>

definition keeps_unused :: "string set \<Rightarrow> graph \<Rightarrow> graph \<Rightarrow> bool" where
  "keeps_unused N g g' \<longleftrightarrow>
     (\<forall>t. t \<notin> N \<longrightarrow> unused (scope g @ [t]) g \<longrightarrow> unused (scope g @ [t]) g')"

subsection \<open>Concrete inputs\<close>

text \<open>
  A fresh default graph, and a batch of feature maps and a scalar phase tensor as
  the data loader supplies them.
\<close>

definition default_graph :: graph where
  "default_graph = \<lparr>variables = [], collections = (\<lambda>key. []), scope = [], reuse = NoReuse\<rparr>"

definition example_input :: tensor where
  "example_input = Input ''x'' [None, Some 32, Some 32, Some 16]"

definition example_phase :: tensor where
  "example_phase = Input ''phase'' []"

text \<open>
  The units of the network listed from the output back to the input, as
  \<open>strip_units\<close> meets them; it is the reverse of \<open>wrn_units\<close> when there is at
  least one unit in a block.
\<close>

definition wrn_units_rev :: "nat \<Rightarrow> nat \<Rightarrow> unit_desc list" where
  "wrn_units_rev num k =
     (replicate (num - 1) (FurtherUnit (64 * k)) @ [FirstUnit (64 * k) 2]) @
     (replicate (num - 1) (FurtherUnit (32 * k)) @ [FirstUnit (32 * k) 2]) @
     (replicate (num - 1) (FurtherUnit (16 * k)) @ [FirstUnit (16 * k) 1])"

text \<open>A data loader that delivers image batches of CIFAR-100 shape, one-hot labels
  over 100 classes and a scalar phase, and leaves the graph as it is.\<close>

definition example_data_loading :: "nat \<Rightarrow> data_loading build" where
  "example_data_loading batch_size g =
     Inr (\<lparr>load = (Input ''X'' [Some batch_size, Some 32, Some 32, Some 3],
                   Input ''y'' [Some batch_size, Some 100],
                   Input ''phase'' []),
           loader_train_init_op = Input ''train_init_op'' [],
           loader_train_eval_init_op = Input ''train_eval_init_op'' [],
           loader_test_init_op = Input ''test_init_op'' []\<rparr>, g)"

section \<open>Basic facts\<close>

lemma bind_Inr: "bind m f g = Inr r \<longleftrightarrow> (\<exists>x g1. m g = Inr (x, g1) \<and> f x g1 = Inr r)"
  by (auto simp: bind_def split: sum.splits)

lemma bind_step: "m g = Inr (x, g1) \<Longrightarrow> bind m f g = f x g1"
  by (simp add: bind_def)

lemma lift_Inr: "lift r g = Inr (x, g') \<longleftrightarrow> r = Inr x \<and> g' = g"
  by (auto simp: lift_def split: sum.splits)

lemma return_Inr: "return x g = Inr (y, g') \<longleftrightarrow> y = x \<and> g' = g"
  by (auto simp: return_def)

lemma variable_scope_Inr:
  "variable_scope n body g = Inr (r, g') \<longleftrightarrow>
     (\<exists>g1. body (g\<lparr>scope := scope g @ [n]\<rparr>) = Inr (r, g1) \<and> g' = g1\<lparr>scope := scope g\<rparr>)"
  by (auto simp: variable_scope_def split: sum.splits)

lemma variable_scope_step:
  "body (g\<lparr>scope := scope g @ [n]\<rparr>) = Inr (r, g1) \<Longrightarrow>
     variable_scope n body g = Inr (r, g1\<lparr>scope := scope g\<rparr>)"
  by (simp add: variable_scope_def)

lemma broadcast_dim_same: "broadcast_dim d d = Some d"
  by (cases d) auto

lemma broadcast_rev_same: "broadcast_rev s s = Some s"
  by (induction s) (auto simp: broadcast_dim_same)

lemma broadcast_shape_same: "broadcast_shape s s = Some s"
  by (simp add: broadcast_shape_def broadcast_rev_same)

lemma broadcast_rev_Nil2: "broadcast_rev s [] = Some s"
  by (cases s) auto

lemma broadcast_shape_Nil: "broadcast_shape [] s = Some s" "broadcast_shape s [] = Some s"
  by (simp_all add: broadcast_shape_def broadcast_rev_Nil2)

lemma broadcast_shape_channel:
  "broadcast_shape [n, h, w, Some c] [Some c] = Some [n, h, w, Some c]"
  by (simp add: broadcast_shape_def)

lemma py_index_Inr: "py_index xs (int i) = Inr y \<longleftrightarrow> i < length xs \<and> y = xs ! i"
  by (auto simp: py_index_def Let_def)

lemma compatible_the:
  "None \<notin> set shp \<Longrightarrow> list_all2 dims_compatible shp (map (Some \<circ> the) shp)"
  by (induction shp) (auto simp: dims_compatible_def)

lemma compatible_known: "list_all2 dims_compatible (map Some ns) (map Some ms) \<longleftrightarrow> ns = ms"
  by (induction ns arbitrary: ms) (auto simp: dims_compatible_def list_all2_Cons1)

lemma compatible_singleton:
  "list_all2 dims_compatible [Some c] (map Some ms) \<longleftrightarrow> ms = [c]"
  using compatible_known[of "[c]" ms] by auto

lemma compatible_kernel:
  "list_all2 dims_compatible [Some a, Some b, c, Some d] (map Some ms) \<Longrightarrow>
     length ms = 4 \<and> ms ! 0 = a \<and> ms ! 1 = b \<and> ms ! 3 = d \<and> dims_compatible c (Some (ms ! 2))"
  by (auto simp: dims_compatible_def list_all2_Cons1)

lemma compatible_matrix:
  "list_all2 dims_compatible [c, Some d] (map Some ms) \<Longrightarrow>
     length ms = 2 \<and> ms ! 1 = d \<and> dims_compatible c (Some (ms ! 0))"
  by (auto simp: dims_compatible_def list_all2_Cons1)

lemma get_variable_Inr:
  assumes "get_variable n shp init tr g = Inr (v, g')"
  shows "var_name v = scope g @ [n]" and "scope g' = scope g" and "reuse g' = reuse g"
    and "collections g' = collections g"
    and "list_all2 dims_compatible shp (map Some (var_shape v))"
    and "(g' = g \<and> v \<in> set (variables g) \<and> reuse g \<noteq> NoReuse) \<or>
         (g' = g\<lparr>variables := variables g @ [v]\<rparr> \<and>
          scope g @ [n] \<notin> var_name ` set (variables g) \<and>
          var_init v = init \<and> var_trainable v = tr \<and> reuse g \<noteq> Reuse)"
proof -
  show "var_name v = scope g @ [n]"
    using assms
    by (auto simp: get_variable_def Let_def fully_defined_def find_Some_iff
        split: option.splits if_splits)
  show "scope g' = scope g" "reuse g' = reuse g" "collections g' = collections g"
    using assms
    by (auto simp: get_variable_def Let_def fully_defined_def split: option.splits if_splits)
  show "list_all2 dims_compatible shp (map Some (var_shape v))"
    using assms
    by (auto simp: get_variable_def Let_def fully_defined_def compatible_the
        split: option.splits if_splits)
  show "(g' = g \<and> v \<in> set (variables g) \<and> reuse g \<noteq> NoReuse) \<or>
         (g' = g\<lparr>variables := variables g @ [v]\<rparr> \<and>
          scope g @ [n] \<notin> var_name ` set (variables g) \<and>
          var_init v = init \<and> var_trainable v = tr \<and> reuse g \<noteq> Reuse)"
    using assms
    by (auto simp: get_variable_def Let_def fully_defined_def find_Some_iff find_None_iff
        split: option.splits if_splits)
qed

lemma get_variable_NoReuse:
  assumes "get_variable n shp init tr g = Inr (v, g')" and "reuse g = NoReuse"
  shows "var_init v = init \<and> var_trainable v = tr"
  using get_variable_Inr(6)[OF assms(1)] assms(2) by auto

lemma get_variable_progress:
  assumes "scope g @ [n] \<notin> var_name ` set (variables g)" and "reuse g \<noteq> Reuse"
    and "None \<notin> set shp"
  shows "\<exists>v g'. get_variable n shp init tr g = Inr (v, g')"
proof -
  have "find (\<lambda>v. var_name v = scope g @ [n]) (variables g) = None"
    using assms(1) by (force simp: find_None_iff)
  then show ?thesis
    using assms(2,3) by (simp add: get_variable_def fully_defined_def Let_def)
qed

subsection \<open>Graph bookkeeping\<close>

lemma get_collection_simps:
  "get_collection key (g\<lparr>scope := s\<rparr>) = get_collection key g"
  "get_collection key (g\<lparr>variables := vs\<rparr>) = get_collection key g"
  "get_collection key (add_to_collection key' t g) =
     (if key = key' then get_collection key g @ [t] else get_collection key g)"
  by (simp_all add: get_collection_def add_to_collection_def)

lemma add_to_collection_fields:
  "variables (add_to_collection key t g) = variables g"
  "scope (add_to_collection key t g) = scope g"
  "reuse (add_to_collection key t g) = reuse g"
  "collections (add_to_collection key t g) key' =
     (if key' = key then collections g key @ [t] else collections g key')"
  by (simp_all add: add_to_collection_def)

lemma regularizable_consistent_scope:
  "regularizable_consistent (g\<lparr>scope := s\<rparr>) = regularizable_consistent g"
  by (simp add: regularizable_consistent_def get_collection_simps)

lemma collection_names:
  "UPDATE_OPS \<noteq> ''regularizable_variables''" "REGULARIZATION_LOSSES \<noteq> ''regularizable_variables''"
  "REGULARIZATION_LOSSES \<noteq> UPDATE_OPS"
  by (simp_all add: UPDATE_OPS_def REGULARIZATION_LOSSES_def)

lemma builds_under_refl: "builds_under p g g"
  by (simp add: builds_under_def)

lemma builds_under_trans:
  "builds_under p g g1 \<Longrightarrow> builds_under p g1 g2 \<Longrightarrow> builds_under p g g2"
proof -
  assume a: "builds_under p g g1" and b: "builds_under p g1 g2"
  have 1: "scope g2 = scope g" "reuse g2 = reuse g"
    using a b by (simp_all add: builds_under_def)
  have 2: "\<forall>key. key \<noteq> ''regularizable_variables'' \<and> key \<noteq> UPDATE_OPS \<longrightarrow>
        collections g2 key = collections g key"
    using a b by (simp add: builds_under_def)
  have 3: "\<forall>v \<in> set (variables g2). v \<in> set (variables g) \<or> prefix p (var_name v)"
    using a b unfolding builds_under_def by blast
  have 4: "set (variables g) \<subseteq> set (variables g2)"
    using a b unfolding builds_under_def by blast
  have 5: "regularizable_consistent g \<longrightarrow> regularizable_consistent g2"
    using a b unfolding builds_under_def by blast
  show ?thesis
    unfolding builds_under_def using 1 2 3 4 5 by blast
qed

lemma builds_under_mono:
  "prefix q p \<Longrightarrow> builds_under p g g' \<Longrightarrow> builds_under q g g'"
proof -
  assume q: "prefix q p" and a: "builds_under p g g'"
  have "\<forall>v \<in> set (variables g'). v \<in> set (variables g) \<or> prefix q (var_name v)"
    using a q unfolding builds_under_def by (meson prefix_order.trans)
  then show ?thesis
    using a unfolding builds_under_def by blast
qed

lemma builds_under_scope:
  assumes "builds_under p (g\<lparr>scope := s\<rparr>) g1"
  shows "builds_under p g (g1\<lparr>scope := scope g\<rparr>)"
  using assms unfolding builds_under_def
  by (simp add: regularizable_consistent_scope)

lemma builds_under_update_ops: "builds_under p g (add_to_collection UPDATE_OPS t g)"
  using collection_names
  by (auto simp: builds_under_def add_to_collection_fields regularizable_consistent_def
      get_collection_def)

lemma get_variable_builds:
  assumes "get_variable n shp init tr g = Inr (v, g')" and "n \<noteq> ''W''"
  shows "builds_under (scope g @ [n]) g g'"
proof -
  note f = get_variable_Inr[OF assms(1)]
  from f(6) show ?thesis
  proof
    assume "g' = g \<and> v \<in> set (variables g) \<and> reuse g \<noteq> NoReuse"
    then show ?thesis by (simp add: builds_under_refl)
  next
    assume a: "g' = g\<lparr>variables := variables g @ [v]\<rparr> \<and>
          scope g @ [n] \<notin> var_name ` set (variables g) \<and>
          var_init v = init \<and> var_trainable v = tr \<and> reuse g \<noteq> Reuse"
    have "\<not> is_weight v" using f(1) assms(2) by (simp add: is_weight_def)
    with a f(1) show ?thesis
      by (auto simp: builds_under_def regularizable_consistent_def get_collection_def)
  qed
qed

section \<open>The layer builders\<close>

lemma tf_simple_Inr:
  "tf_add a b = Inr t \<longleftrightarrow> t = Add a b \<and> broadcast_shape (get_shape a) (get_shape b) \<noteq> None"
  "tf_multiply a b = Inr t \<longleftrightarrow> t = Mul a b \<and> broadcast_shape (get_shape a) (get_shape b) \<noteq> None"
  "tf_equal a b = Inr t \<longleftrightarrow> t = Equal a b \<and> broadcast_shape (get_shape a) (get_shape b) \<noteq> None"
  "tf_nn_moments x axes = Inr mv \<longleftrightarrow>
     mv = (MomentsMean x axes, MomentsVariance x axes) \<and> (\<forall>a \<in> set axes. a < length (get_shape x))"
  "assign v val = Inr t \<longleftrightarrow>
     t = Assign v val \<and> list_all2 dims_compatible (map Some (var_shape v)) (get_shape val)"
  "tf_cond p tf ff = Inr pr \<longleftrightarrow>
     pr = (Cond p (fst tf) (fst ff), Cond p (snd tf) (snd ff)) \<and> get_shape p = []"
  "tf_nn_batch_normalization x m va b ga e = Inr t \<longleftrightarrow>
     t = BatchNormalization x m va b ga e \<and>
     batch_normalization_shape (get_shape x) (get_shape m) (get_shape va) (get_shape b)
       (get_shape ga) \<noteq> None"
  "tf_reduce_mean x axes = Inr t \<longleftrightarrow>
     t = ReduceMean x axes \<and> (\<forall>a \<in> set axes. a < length (get_shape x))"
  "tf_argmax x axis = Inr t \<longleftrightarrow> t = ArgMax x axis \<and> axis < length (get_shape x)"
  "tf_nn_softmax_cross_entropy_with_logits_v2 labels logits = Inr t \<longleftrightarrow>
     t = SoftmaxCrossEntropy labels logits \<and> get_shape logits \<noteq> [] \<and>
     broadcast_shape (get_shape labels) (get_shape logits) \<noteq> None"
  by (auto simp: tf_add_def tf_multiply_def tf_equal_def tf_nn_moments_def assign_def tf_cond_def
      tf_nn_batch_normalization_def tf_reduce_mean_def tf_argmax_def
      tf_nn_softmax_cross_entropy_with_logits_v2_def split: option.splits)

lemma tf_nn_conv2d_Inr:
  "tf_nn_conv2d x W stride pad = Inr t \<longleftrightarrow>
     t = Conv2d x W stride pad \<and> length (get_shape x) = 4 \<and> length (get_shape W) = 4 \<and>
     0 < stride \<and> dims_compatible (get_shape x ! 3) (get_shape W ! 2) \<and>
     window_fits pad (get_shape x ! 1) (get_shape W ! 0) \<and>
     window_fits pad (get_shape x ! 2) (get_shape W ! 1)"
  by (auto simp: tf_nn_conv2d_def Let_def)

lemma tf_matmul_Inr:
  "tf_matmul a b = Inr t \<longleftrightarrow>
     t = MatMul a b \<and> length (get_shape a) = 2 \<and> length (get_shape b) = 2 \<and>
     dims_compatible (get_shape a ! 1) (get_shape b ! 0)"
  by (auto simp: tf_matmul_def Let_def)

lemma conv_Inr:
  assumes "conv x fs oc st pad name g = Inr (out, g')"
  shows "\<exists>W g1.
     get_variable ''W'' [Some fs, Some fs, get_shape x ! 3, Some oc] (conv_init fs oc) True
        (g\<lparr>scope := scope g @ [name]\<rparr>) = Inr (W, g1) \<and>
     g' = (collect_weight W g1)\<lparr>scope := scope g\<rparr> \<and>
     out = Conv2d x (Variable W) st pad \<and>
     length (get_shape x) = 4 \<and> 0 < fs \<and> 0 < oc \<and> 0 < st \<and>
     window_fits pad (get_shape x ! 1) (Some fs) \<and> window_fits pad (get_shape x ! 2) (Some fs)"
proof -
  from assms obtain ci W g1 g2 where
    z: "0 < fs" "0 < oc"
    and i: "py_index (get_shape x) 3 = Inr ci"
    and v: "get_variable ''W'' [Some fs, Some fs, ci, Some oc] (conv_init fs oc) True
        (g\<lparr>scope := scope g @ [name]\<rparr>) = Inr (W, g1)"
    and c: "tf_nn_conv2d x (Variable W) st pad = Inr out"
    and g': "g' = (collect_weight W g1)\<lparr>scope := scope g\<rparr>"
    unfolding conv_def Let_def conv_init_def collect_weight_def
    by (auto simp: variable_scope_Inr bind_Inr lift_Inr split: if_splits)
  from i have ci: "ci = get_shape x ! 3"
    using py_index_Inr[of "get_shape x" 3 ci] by simp
  note k = compatible_kernel[OF get_variable_Inr(5)[OF v]]
  from c k show ?thesis
    using z v g' ci by (auto simp: tf_nn_conv2d_Inr)
qed

lemma collect_weight_fields:
  "variables (collect_weight W g) = variables g"
  "scope (collect_weight W g) = scope g"
  "reuse (collect_weight W g) = reuse g"
  "key \<noteq> ''regularizable_variables'' \<Longrightarrow> collections (collect_weight W g) key = collections g key"
  by (simp_all add: collect_weight_def add_to_collection_fields)

lemma weight_builds:
  assumes "get_variable ''W'' shp init tr g = Inr (W, g1)"
  shows "builds_under (scope g @ [''W'']) g (collect_weight W g1)"
proof -
  note f = get_variable_Inr[OF assms]
  have w: "is_weight W" using f(1) by (simp add: is_weight_def)
  from f(6) show ?thesis
  proof
    assume a: "g1 = g \<and> W \<in> set (variables g) \<and> reuse g \<noteq> NoReuse"
    then have "regularizable_consistent g \<Longrightarrow> collect_weight W g = g"
      using w by (auto simp: regularizable_consistent_def collect_weight_def)
    then show ?thesis
      using a by (auto simp: builds_under_def collect_weight_fields)
  next
    assume a: "g1 = g\<lparr>variables := variables g @ [W]\<rparr> \<and>
          scope g @ [''W''] \<notin> var_name ` set (variables g) \<and>
          var_init W = init \<and> var_trainable W = tr \<and> reuse g \<noteq> Reuse"
    have new: "W \<notin> set (variables g)" using a f(1) by force
    have "regularizable_consistent g \<Longrightarrow> regularizable_consistent (collect_weight W g1)"
      using a w new f(1)
      by (auto simp: regularizable_consistent_def collect_weight_def get_collection_simps
          add_to_collection_fields)
    then show ?thesis
      using a f(1) by (auto simp: builds_under_def collect_weight_fields)
  qed
qed

lemma conv_builds:
  assumes "conv x fs oc st pad name g = Inr (out, g')"
  shows "builds_under (scope g @ [name]) g g'"
proof -
  from conv_Inr[OF assms] obtain W g1 where
    v: "get_variable ''W'' [Some fs, Some fs, get_shape x ! 3, Some oc] (conv_init fs oc) True
        (g\<lparr>scope := scope g @ [name]\<rparr>) = Inr (W, g1)"
    and g': "g' = (collect_weight W g1)\<lparr>scope := scope g\<rparr>"
    by blast
  have "builds_under (scope g @ [name]) (g\<lparr>scope := scope g @ [name]\<rparr>) (collect_weight W g1)"
    using weight_builds[OF v] by (auto intro: builds_under_mono[rotated])
  then show ?thesis
    unfolding g' by (rule builds_under_scope)
qed

lemma conv_shape:
  assumes "conv x fs oc st pad name g = Inr (out, g')"
  shows "\<exists>n h w c. get_shape x = [n, h, w, c] \<and>
     get_shape out = [n, conv_dim pad h (Some fs) st, conv_dim pad w (Some fs) st, Some oc]"
proof -
  from conv_Inr[OF assms] obtain W g1 where
    v: "get_variable ''W'' [Some fs, Some fs, get_shape x ! 3, Some oc] (conv_init fs oc) True
        (g\<lparr>scope := scope g @ [name]\<rparr>) = Inr (W, g1)"
    and out: "out = Conv2d x (Variable W) st pad" and l: "length (get_shape x) = 4"
    by blast
  note k = compatible_kernel[OF get_variable_Inr(5)[OF v]]
  from l obtain n h w c where x: "get_shape x = [n, h, w, c]"
    by (auto simp: length_Suc_conv numeral_eq_Suc)
  from k obtain a b ci d where W: "var_shape W = [a, b, ci, d]"
    by (auto simp: length_Suc_conv numeral_eq_Suc)
  with k have "a = fs" "b = fs" "d = oc" by simp_all
  with x W out show ?thesis by simp
qed

lemma conv_is_conv:
  assumes "conv x fs oc st SAME name g = Inr (out, g')"
  shows "is_conv out x fs oc st"
proof -
  from conv_Inr[OF assms] obtain W g1 where
    v: "get_variable ''W'' [Some fs, Some fs, get_shape x ! 3, Some oc] (conv_init fs oc) True
        (g\<lparr>scope := scope g @ [name]\<rparr>) = Inr (W, g1)"
    and out: "out = Conv2d x (Variable W) st SAME"
    by blast
  note k = compatible_kernel[OF get_variable_Inr(5)[OF v]]
  with out show ?thesis by (simp add: is_conv_def is_kernel_def)
qed


lemma batch_norm_Inr:
  assumes "batch_norm x phase decay name g = Inr (out, g')"
  shows "\<exists>mean_avg variance_avg beta gamma g1 g2 g3 g4.
     get_variable ''mean_avg'' (drop_axes 0 [0, 1, 2] (get_shape x)) zeros_initializer False
        (g\<lparr>scope := scope g @ [name]\<rparr>) = Inr (mean_avg, g1) \<and>
     get_variable ''std_avg'' (drop_axes 0 [0, 1, 2] (get_shape x)) ones_initializer False g1
        = Inr (variance_avg, g2) \<and>
     get_variable ''beta'' (drop_axes 0 [0, 1, 2] (get_shape x)) zeros_initializer True g2
        = Inr (beta, g3) \<and>
     get_variable ''gamma'' (drop_axes 0 [0, 1, 2] (get_shape x)) ones_initializer True g3
        = Inr (gamma, g4) \<and>
     g' = (add_to_collection UPDATE_OPS
             (moving_average_update decay variance_avg (MomentsVariance x [0, 1, 2]))
          (add_to_collection UPDATE_OPS
             (moving_average_update decay mean_avg (MomentsMean x [0, 1, 2])) g4))
          \<lparr>scope := scope g\<rparr> \<and>
     out = BatchNormalization x
            (Cond (Equal phase (ConstString ''train'')) (MomentsMean x [0, 1, 2]) (Variable mean_avg))
            (Cond (Equal phase (ConstString ''train'')) (MomentsVariance x [0, 1, 2])
               (Variable variance_avg))
            (Variable beta) (Variable gamma) (FloatLit ''1e-5'') \<and>
     get_shape phase = [] \<and> 3 \<le> length (get_shape x)"
  using assms unfolding batch_norm_def moving_average_update_def
  by (auto simp: variable_scope_Inr bind_Inr lift_Inr tf_simple_Inr broadcast_shape_Nil)

lemma batch_norm_builds:
  assumes "batch_norm x phase decay name g = Inr (out, g')"
  shows "builds_under (scope g @ [name]) g g'"
proof -
  let ?p = "scope g @ [name]"
  let ?g0 = "g\<lparr>scope := ?p\<rparr>"
  from batch_norm_Inr[OF assms] obtain mean_avg variance_avg beta gamma g1 g2 g3 g4 where
    v1: "get_variable ''mean_avg'' (drop_axes 0 [0, 1, 2] (get_shape x)) zeros_initializer False
        ?g0 = Inr (mean_avg, g1)"
    and v2: "get_variable ''std_avg'' (drop_axes 0 [0, 1, 2] (get_shape x)) ones_initializer False g1
        = Inr (variance_avg, g2)"
    and v3: "get_variable ''beta'' (drop_axes 0 [0, 1, 2] (get_shape x)) zeros_initializer True g2
        = Inr (beta, g3)"
    and v4: "get_variable ''gamma'' (drop_axes 0 [0, 1, 2] (get_shape x)) ones_initializer True g3
        = Inr (gamma, g4)"
    and g': "g' = (add_to_collection UPDATE_OPS
             (moving_average_update decay variance_avg (MomentsVariance x [0, 1, 2]))
          (add_to_collection UPDATE_OPS
             (moving_average_update decay mean_avg (MomentsMean x [0, 1, 2])) g4))
          \<lparr>scope := scope g\<rparr>"
    by blast
  have s1: "scope g1 = ?p" using get_variable_Inr(2)[OF v1] by simp
  have s2: "scope g2 = ?p" using get_variable_Inr(2)[OF v2] s1 by simp
  have s3: "scope g3 = ?p" using get_variable_Inr(2)[OF v3] s2 by simp
  have b1: "builds_under ?p ?g0 g1"
    using get_variable_builds[OF v1] by (auto intro: builds_under_mono[rotated])
  have b2: "builds_under ?p g1 g2"
    using get_variable_builds[OF v2] s1 by (auto intro: builds_under_mono[rotated])
  have b3: "builds_under ?p g2 g3"
    using get_variable_builds[OF v3] s2 by (auto intro: builds_under_mono[rotated])
  have b4: "builds_under ?p g3 g4"
    using get_variable_builds[OF v4] s3 by (auto intro: builds_under_mono[rotated])
  have "builds_under ?p ?g0 (add_to_collection UPDATE_OPS
             (moving_average_update decay variance_avg (MomentsVariance x [0, 1, 2]))
          (add_to_collection UPDATE_OPS
             (moving_average_update decay mean_avg (MomentsMean x [0, 1, 2])) g4))"
    by (rule builds_under_trans[OF builds_under_trans[OF builds_under_trans[OF
          builds_under_trans[OF builds_under_trans[OF b1 b2] b3] b4]
          builds_under_update_ops] builds_under_update_ops])
  then show ?thesis
    unfolding g' by (rule builds_under_scope)
qed

lemma batch_normalization_shape_channel:
  "batch_normalization_shape [n, h, w, Some c] [Some c] [Some c] [Some c] [Some c] =
     Some [n, h, w, Some c]"
  by (simp add: batch_normalization_shape_def broadcast_shape_same broadcast_shape_channel)

lemma batch_norm_shape:
  assumes "batch_norm x phase decay name g = Inr (out, g')"
    and "get_shape x = [n, h, w, Some c]"
  shows "get_shape out = [n, h, w, Some c]"
proof -
  from batch_norm_Inr[OF assms(1)] obtain mean_avg variance_avg beta gamma g1 g2 g3 g4 where
    v1: "get_variable ''mean_avg'' (drop_axes 0 [0, 1, 2] (get_shape x)) zeros_initializer False
        (g\<lparr>scope := scope g @ [name]\<rparr>) = Inr (mean_avg, g1)"
    and v2: "get_variable ''std_avg'' (drop_axes 0 [0, 1, 2] (get_shape x)) ones_initializer False g1
        = Inr (variance_avg, g2)"
    and v3: "get_variable ''beta'' (drop_axes 0 [0, 1, 2] (get_shape x)) zeros_initializer True g2
        = Inr (beta, g3)"
    and v4: "get_variable ''gamma'' (drop_axes 0 [0, 1, 2] (get_shape x)) ones_initializer True g3
        = Inr (gamma, g4)"
    and out: "out = BatchNormalization x
            (Cond (Equal phase (ConstString ''train'')) (MomentsMean x [0, 1, 2]) (Variable mean_avg))
            (Cond (Equal phase (ConstString ''train'')) (MomentsVariance x [0, 1, 2])
               (Variable variance_avg))
            (Variable beta) (Variable gamma) (FloatLit ''1e-5'')"
    by blast
  have d: "drop_axes 0 [0, 1, 2] (get_shape x) = [Some c]"
    using assms(2) by simp
  have "var_shape mean_avg = [c]" "var_shape variance_avg = [c]" "var_shape beta = [c]"
    "var_shape gamma = [c]"
    using get_variable_Inr(5)[OF v1] get_variable_Inr(5)[OF v2] get_variable_Inr(5)[OF v3]
      get_variable_Inr(5)[OF v4]
    unfolding d by (simp_all add: compatible_singleton)
  then show ?thesis
    unfolding out using assms(2) d
    by (simp add: merge_dim_def batch_normalization_shape_channel)
qed

lemma collect_weight_eq:
  "(\<lambda>g. Inr ((), if Variable W \<notin> set (get_collection ''regularizable_variables'' g)
                   then add_to_collection ''regularizable_variables'' (Variable W) g else g)) =
   (\<lambda>g. Inr ((), collect_weight W g))"
  by (simp add: collect_weight_def)

lemma fc_Inr:
  assumes "fc x out_dim name g = Inr (out, g')"
  shows "\<exists>W b g1 g2.
     get_variable ''W'' [get_shape x ! 1, Some out_dim]
        (random_normal_initializer (FloatSqrt (FloatDiv (FloatLit ''1.0'') (FloatOfInt out_dim))))
        True (g\<lparr>scope := scope g @ [name]\<rparr>) = Inr (W, g1) \<and>
     get_variable ''b'' [Some out_dim] (constant_initializer (FloatLit ''0.0'')) True
        (collect_weight W g1) = Inr (b, g2) \<and>
     g' = g2\<lparr>scope := scope g\<rparr> \<and>
     out = Add (MatMul x (Variable W)) (Variable b) \<and>
     length (get_shape x) = 2 \<and> 0 < out_dim \<and>
     var_shape W ! 1 = out_dim \<and> length (var_shape W) = 2 \<and> var_shape b = [out_dim]"
proof -
  from assms obtain d W b g1 g2 xW where
    z: "0 < out_dim"
    and i: "py_index (get_shape x) 1 = Inr d"
    and v: "get_variable ''W'' [d, Some out_dim]
        (random_normal_initializer (FloatSqrt (FloatDiv (FloatLit ''1.0'') (FloatOfInt out_dim))))
        True (g\<lparr>scope := scope g @ [name]\<rparr>) = Inr (W, g1)"
    and vb: "get_variable ''b'' [Some out_dim] (constant_initializer (FloatLit ''0.0'')) True
        (collect_weight W g1) = Inr (b, g2)"
    and m: "tf_matmul x (Variable W) = Inr xW"
    and a: "tf_add xW (Variable b) = Inr out"
    and g': "g' = g2\<lparr>scope := scope g\<rparr>"
    unfolding fc_def Let_def collect_weight_eq
    by (cases "out_dim = 0") (auto simp: variable_scope_Inr bind_Inr lift_Inr)
  from i have d: "d = get_shape x ! 1"
    using py_index_Inr[of "get_shape x" 1 d] by simp
  note k = compatible_matrix[OF get_variable_Inr(5)[OF v]]
  have b: "var_shape b = [out_dim]"
    using get_variable_Inr(5)[OF vb] by (simp add: compatible_singleton)
  from m a k b show ?thesis
    using z v vb g' d by (auto simp: tf_matmul_Inr tf_simple_Inr)
qed

lemma fc_builds:
  assumes "fc x out_dim name g = Inr (out, g')"
  shows "builds_under (scope g @ [name]) g g'"
proof -
  let ?p = "scope g @ [name]"
  from fc_Inr[OF assms] obtain W b g1 g2 where
    v: "get_variable ''W'' [get_shape x ! 1, Some out_dim]
        (random_normal_initializer (FloatSqrt (FloatDiv (FloatLit ''1.0'') (FloatOfInt out_dim))))
        True (g\<lparr>scope := ?p\<rparr>) = Inr (W, g1)"
    and vb: "get_variable ''b'' [Some out_dim] (constant_initializer (FloatLit ''0.0'')) True
        (collect_weight W g1) = Inr (b, g2)"
    and g': "g' = g2\<lparr>scope := scope g\<rparr>"
    by blast
  have s1: "scope (collect_weight W g1) = ?p"
    using get_variable_Inr(2)[OF v] by (simp add: collect_weight_fields)
  have b1: "builds_under ?p (g\<lparr>scope := ?p\<rparr>) (collect_weight W g1)"
    using weight_builds[OF v] by (auto intro: builds_under_mono[rotated])
  have b2: "builds_under ?p (collect_weight W g1) g2"
    using get_variable_builds[OF vb] s1 by (auto intro: builds_under_mono[rotated])
  have "builds_under ?p (g\<lparr>scope := ?p\<rparr>) g2"
    using b1 b2 by (rule builds_under_trans)
  then show ?thesis
    unfolding g' by (rule builds_under_scope)
qed

lemma fc_shape:
  assumes "fc x out_dim name g = Inr (out, g')"
  shows "get_shape out = [get_shape x ! 0, Some out_dim]"
proof -
  from fc_Inr[OF assms] obtain W b where
    out: "out = Add (MatMul x (Variable W)) (Variable b)"
    and l: "length (get_shape x) = 2" "var_shape W ! 1 = out_dim" "length (var_shape W) = 2"
      "var_shape b = [out_dim]"
    by blast
  from l(1) obtain m d where x: "get_shape x = [m, d]"
    by (auto simp: length_Suc_conv numeral_eq_Suc)
  from l(3) obtain a c where W: "var_shape W = [a, c]"
    by (auto simp: length_Suc_conv numeral_eq_Suc)
  have "broadcast_shape [m, Some out_dim] [Some out_dim] = Some [m, Some out_dim]"
    by (simp add: broadcast_shape_def)
  then show ?thesis
    unfolding out using x W l(2,4) by simp
qed


section \<open>Progress of the layer builders\<close>

lemma unused_scope: "unused p (g\<lparr>scope := s\<rparr>) = unused p g"
  by (simp add: unused_def)

lemma unused_longer: "unused p g \<Longrightarrow> prefix p q \<Longrightarrow> unused q g"
  unfolding unused_def by (meson prefix_order.trans)

lemma unused_step:
  assumes "builds_under (sc @ [a]) g g'" and "unused (sc @ [b]) g" and "a \<noteq> b"
  shows "unused (sc @ [b]) g'"
  unfolding unused_def
proof
  fix v assume v: "v \<in> set (variables g')"
  show "\<not> prefix (sc @ [b]) (var_name v)"
  proof
    assume p: "prefix (sc @ [b]) (var_name v)"
    from assms(1) v have "v \<in> set (variables g) \<or> prefix (sc @ [a]) (var_name v)"
      unfolding builds_under_def by blast
    then show False
    proof
      assume "v \<in> set (variables g)"
      with assms(2) p show False by (simp add: unused_def)
    next
      assume "prefix (sc @ [a]) (var_name v)"
      with p have "prefix (sc @ [a]) (sc @ [b]) \<or> prefix (sc @ [b]) (sc @ [a])"
        by (meson prefix_same_cases)
      with assms(3) show False by auto
    qed
  qed
qed

lemma unused_name: "unused p g \<Longrightarrow> p @ q \<notin> var_name ` set (variables g)"
  unfolding unused_def by (metis prefixI imageE)

lemma get_variable_new:
  assumes "scope g @ [n] \<notin> var_name ` set (variables g)" and "reuse g \<noteq> Reuse"
    and "None \<notin> set shp"
  shows "get_variable n shp init tr g =
     Inr (\<lparr>var_name = scope g @ [n], var_shape = map the shp, var_init = init,
            var_trainable = tr\<rparr>,
          g\<lparr>variables := variables g @
             [\<lparr>var_name = scope g @ [n], var_shape = map the shp, var_init = init,
               var_trainable = tr\<rparr>]\<rparr>)"
proof -
  have "find (\<lambda>v. var_name v = scope g @ [n]) (variables g) = None"
    using assms(1) by (force simp: find_None_iff)
  then show ?thesis
    using assms(2,3) by (simp add: get_variable_def fully_defined_def Let_def)
qed

lemma conv_progress:
  assumes "get_shape x = [n, h, w, Some c]" and "0 < fs" and "0 < oc" and "0 < st"
    and "reuse g \<noteq> Reuse" and "unused (scope g @ [name]) g"
  shows "\<exists>out g'. conv x fs oc st SAME name g = Inr (out, g')"
proof -
  have u: "\<And>q. scope g @ name # q \<notin> var_name ` set (variables g)"
    using unused_name[OF assms(6)] by simp
  show ?thesis
    using assms(1-5) u
    unfolding conv_def Let_def collect_weight_eq
    by (simp add: variable_scope_def bind_def lift_def py_index_def get_variable_new
        tf_nn_conv2d_def dims_compatible_def)
qed

lemma batch_norm_progress:
  assumes "get_shape x = [n, h, w, Some c]" and "get_shape phase = []"
    and "reuse g \<noteq> Reuse" and "unused (scope g @ [name]) g"
  shows "\<exists>out g'. batch_norm x phase decay name g = Inr (out, g')"
proof -
  have u: "\<And>q. scope g @ name # q \<notin> var_name ` set (variables g)"
    using unused_name[OF assms(4)] by simp
  show ?thesis
    unfolding batch_norm_def
    using assms(1-3) u
    by (simp add: variable_scope_def bind_def lift_def tf_nn_moments_def get_variable_new
        tf_multiply_def tf_add_def broadcast_shape_Nil broadcast_shape_same assign_def
        dims_compatible_def tf_equal_def tf_cond_def tf_nn_batch_normalization_def
        merge_dim_def batch_normalization_shape_channel add_to_collection_fields)
qed

lemma fc_progress:
  assumes "get_shape x = [n, Some c]" and "0 < out_dim"
    and "reuse g \<noteq> Reuse" and "unused (scope g @ [name]) g"
  shows "\<exists>out g'. fc x out_dim name g = Inr (out, g')"
proof -
  have u: "\<And>q. scope g @ name # q \<notin> var_name ` set (variables g)"
    using unused_name[OF assms(4)] by simp
  have b: "broadcast_shape [n, Some out_dim] [Some out_dim] = Some [n, Some out_dim]"
    by (simp add: broadcast_shape_def)
  show ?thesis
    unfolding fc_def Let_def collect_weight_eq
    using assms(1-3) u b
    by (simp add: variable_scope_def bind_def lift_def py_index_def get_variable_new
        collect_weight_fields tf_matmul_def tf_add_def dims_compatible_def)
qed

section \<open>Residual units, loops and blocks\<close>

lemma conv_dim_SAME_1: "conv_dim SAME d f 1 = d" "conv_dim SAME d f (Suc 0) = d"
  by (cases d; simp)+

lemma conv_dim_SAME_filter: "conv_dim SAME d f s = conv_dim SAME d f' s"
  by (cases d) simp_all

lemma batch_norm_form:
  assumes "batch_norm x phase decay name g = Inr (out, g')"
  shows "is_BatchNormalization out \<and> bn_input out = x"
  using batch_norm_Inr[OF assms] by auto

lemma builds_under_scope_eq: "builds_under p g g' \<Longrightarrow> scope g' = scope g"
  by (simp add: builds_under_def)

lemma builds_under_reuse_eq: "builds_under p g g' \<Longrightarrow> reuse g' = reuse g"
  by (simp add: builds_under_def)

lemma builds_under_layer:
  "builds_under (scope g @ [name]) g g' \<Longrightarrow> builds_under (scope g) g g'"
  using builds_under_mono[of "scope g" "scope g @ [name]" g g'] by simp

lemma residual_Inr:
  assumes r: "residual phase bn_decay oc s x shortcut g = Inr (out, g')"
    and x: "get_shape x = [n, h, w, Some c]"
    and sc: "get_shape shortcut = [n, conv_dim SAME h (Some 3) s, conv_dim SAME w (Some 3) s, Some oc]"
  shows "builds_under (scope g) g g'"
    and "get_shape out = get_shape shortcut"
    and "is_Add out \<and> add_right out = shortcut \<and> residual_input oc s (add_left out) = Some x"
proof -
  from r obtain c1 g1 b2 g2 c2 where
    r1: "conv x 3 oc s SAME ''conv_1'' g = Inr (c1, g1)"
    and r2: "batch_norm c1 phase bn_decay ''bn_2'' g1 = Inr (b2, g2)"
    and r3: "conv (Relu b2) 3 oc 1 SAME ''conv_2'' g2 = Inr (c2, g')"
    and r4: "tf_add c2 shortcut = Inr out"
    unfolding residual_def by (auto simp: bind_Inr lift_Inr return_Inr)
  have b1: "builds_under (scope g) g g1"
    using conv_builds[OF r1] by (rule builds_under_layer)
  have b2: "builds_under (scope g) g1 g2"
    using builds_under_layer[OF batch_norm_builds[OF r2]] builds_under_scope_eq[OF b1]
    by simp
  have b3: "builds_under (scope g) g2 g'"
    using builds_under_layer[OF conv_builds[OF r3]] builds_under_scope_eq[OF b1]
      builds_under_scope_eq[OF b2]
    by simp
  show "builds_under (scope g) g g'"
    by (rule builds_under_trans[OF builds_under_trans[OF b1 b2] b3])
  have s1: "get_shape c1 = [n, conv_dim SAME h (Some 3) s, conv_dim SAME w (Some 3) s, Some oc]"
    using conv_shape[OF r1] x by auto
  have s2: "get_shape (Relu b2) = [n, conv_dim SAME h (Some 3) s, conv_dim SAME w (Some 3) s, Some oc]"
    using batch_norm_shape[OF r2 s1] by simp
  have s3: "get_shape c2 = [n, conv_dim SAME h (Some 3) s, conv_dim SAME w (Some 3) s, Some oc]"
    using conv_shape[OF r3] s2 by (auto simp: conv_dim_SAME_1)
  have out: "out = Add c2 shortcut"
    using r4 by (simp add: tf_simple_Inr)
  show "get_shape out = get_shape shortcut"
    unfolding out using s3 sc by (simp add: broadcast_shape_same)
  have f1: "is_conv c1 x 3 oc s" using conv_is_conv[OF r1] .
  have f2: "is_BatchNormalization b2 \<and> bn_input b2 = c1" using batch_norm_form[OF r2] .
  have f3: "is_conv c2 (Relu b2) 3 oc 1" using conv_is_conv[OF r3] .
  show "is_Add out \<and> add_right out = shortcut \<and> residual_input oc s (add_left out) = Some x"
    unfolding out using f1 f2 f3 by (auto simp: residual_input_def is_conv_def)
qed

lemma residual_progress:
  assumes x: "get_shape x = [n, h, w, Some c]"
    and sc: "get_shape shortcut = [n, conv_dim SAME h (Some 3) s, conv_dim SAME w (Some 3) s, Some oc]"
    and pos: "0 < oc" "0 < s" and ph: "get_shape phase = []" and re: "reuse g \<noteq> Reuse"
    and u: "unused (scope g @ [''conv_1'']) g" "unused (scope g @ [''bn_2'']) g"
      "unused (scope g @ [''conv_2'']) g"
  shows "\<exists>out g'. residual phase bn_decay oc s x shortcut g = Inr (out, g')"
proof -
  from conv_progress[OF x _ pos re u(1), of 3] obtain c1 g1 where
    r1: "conv x 3 oc s SAME ''conv_1'' g = Inr (c1, g1)" by auto
  note b1 = conv_builds[OF r1]
  have e1: "scope g1 = scope g" "reuse g1 \<noteq> Reuse"
    using builds_under_scope_eq[OF b1] builds_under_reuse_eq[OF b1] re by simp_all
  have u1: "unused (scope g1 @ [''bn_2'']) g1" "unused (scope g1 @ [''conv_2'']) g1"
    unfolding e1(1) using unused_step[OF b1] u by simp_all
  have s1: "get_shape c1 = [n, conv_dim SAME h (Some 3) s, conv_dim SAME w (Some 3) s, Some oc]"
    using conv_shape[OF r1] x by auto
  from batch_norm_progress[OF s1 ph e1(2) u1(1)] obtain b2 g2 where
    r2: "batch_norm c1 phase bn_decay ''bn_2'' g1 = Inr (b2, g2)" by blast
  note b2 = batch_norm_builds[OF r2]
  have e2: "scope g2 = scope g" "reuse g2 \<noteq> Reuse"
    using builds_under_scope_eq[OF b2] builds_under_reuse_eq[OF b2] e1 by simp_all
  have u2: "unused (scope g2 @ [''conv_2'']) g2"
    using unused_step[OF b2] u1(2) e1(1) e2(1) by simp
  have s2: "get_shape (Relu b2) = [n, conv_dim SAME h (Some 3) s, conv_dim SAME w (Some 3) s, Some oc]"
    using batch_norm_shape[OF r2 s1] by simp
  from conv_progress[OF s2 _ pos(1) _ e2(2) u2, of 3 1] obtain c2 g3 where
    r3: "conv (Relu b2) 3 oc 1 SAME ''conv_2'' g2 = Inr (c2, g3)" by auto
  have s3: "get_shape c2 = [n, conv_dim SAME h (Some 3) s, conv_dim SAME w (Some 3) s, Some oc]"
    using conv_shape[OF r3] s2 by (auto simp: conv_dim_SAME_1)
  have r4: "tf_add c2 shortcut = Inr (Add c2 shortcut)"
    using s3 sc by (simp add: tf_simple_Inr broadcast_shape_same)
  show ?thesis
    unfolding residual_def using r1 r2 r3 r4
    by (simp add: bind_def lift_def return_def)
qed


subsection \<open>Scope names\<close>

lemma str_of_nat_digit: "n < 10 \<Longrightarrow> str_of_nat n = [digit_char n]"
  by (simp add: str_of_nat.simps)

lemma str_of_nat_nonempty: "str_of_nat n \<noteq> []" "[] \<noteq> str_of_nat n"
  by (subst str_of_nat.simps, simp)+

lemma digit_char_inj: "a < 10 \<Longrightarrow> b < 10 \<Longrightarrow> digit_char a = digit_char b \<longleftrightarrow> a = b"
  unfolding digit_char_def by (subst nth_eq_iff_index_eq) simp_all

lemma digit_char_digit: "a < 10 \<Longrightarrow> digit_char a \<in> set ''0123456789''"
  unfolding digit_char_def by (rule nth_mem) simp

lemma str_of_nat_inj: "str_of_nat n = str_of_nat m \<Longrightarrow> n = m"
proof (induction n arbitrary: m rule: str_of_nat.induct)
  case (1 n)
  show ?case
  proof (cases "n < 10")
    case n: True
    show ?thesis
    proof (cases "m < 10")
      case True
      with n "1.prems" show ?thesis
        by (simp add: str_of_nat_digit digit_char_inj)
    next
      case False
      then have "str_of_nat m = str_of_nat (m div 10) @ [digit_char (m mod 10)]"
        by (subst str_of_nat.simps) simp
      with n "1.prems" show ?thesis
        by (simp add: str_of_nat_digit str_of_nat_nonempty)
    qed
  next
    case n: False
    then have sn: "str_of_nat n = str_of_nat (n div 10) @ [digit_char (n mod 10)]"
      by (subst str_of_nat.simps) simp
    show ?thesis
    proof (cases "m < 10")
      case True
      with sn "1.prems" show ?thesis
        by (simp add: str_of_nat_digit str_of_nat_nonempty)
    next
      case False
      then have "str_of_nat m = str_of_nat (m div 10) @ [digit_char (m mod 10)]"
        by (subst str_of_nat.simps) simp
      with sn "1.prems" have e: "str_of_nat (n div 10) = str_of_nat (m div 10)"
        "digit_char (n mod 10) = digit_char (m mod 10)"
        by simp_all
      from "1.IH"[OF n e(1)] have "n div 10 = m div 10" .
      moreover from e(2) have "n mod 10 = m mod 10"
        by (simp add: digit_char_inj)
      ultimately show ?thesis
        by (metis div_mult_mod_eq)
    qed
  qed
qed

lemma unit_name_inj:
  assumes "i < 10" and "i' < 10" and "unit_name i j = unit_name i' j'"
  shows "i = i' \<and> j = j'"
  using assms str_of_nat_inj[of j j']
  by (auto simp: unit_name_def str_of_nat_digit digit_char_inj)

lemma first_unit_name: "''unit_'' @ str_of_nat i @ ''_0'' = unit_name i 0"
  by (simp add: unit_name_def str_of_nat_digit digit_char_def)

lemma unit_name_other:
  "i < 10 \<Longrightarrow> unit_name i j \<noteq> ''conv_0''" "i < 10 \<Longrightarrow> unit_name i j \<noteq> ''unit_last''"
  "i < 10 \<Longrightarrow> unit_name i j \<noteq> ''fully-connected''"
  using digit_char_digit[of i]
  by (auto simp: unit_name_def str_of_nat_digit)

subsection \<open>Names that stay unused\<close>

lemma keeps_unused_layer: "builds_under (scope g @ [a]) g g' \<Longrightarrow> keeps_unused {a} g g'"
  unfolding keeps_unused_def using unused_step by blast

lemma keeps_unused_refl: "keeps_unused N g g"
  by (simp add: keeps_unused_def)

lemma keeps_unused_trans:
  "keeps_unused A g g1 \<Longrightarrow> keeps_unused B g1 g2 \<Longrightarrow> scope g1 = scope g \<Longrightarrow>
     keeps_unused (A \<union> B) g g2"
  unfolding keeps_unused_def by simp

lemma keeps_unused_mono: "keeps_unused A g g' \<Longrightarrow> A \<subseteq> B \<Longrightarrow> keeps_unused B g g'"
  unfolding keeps_unused_def by blast

lemma keeps_unusedD:
  "keeps_unused N g g' \<Longrightarrow> t \<notin> N \<Longrightarrow> unused (scope g @ [t]) g \<Longrightarrow> unused (scope g @ [t]) g'"
  unfolding keeps_unused_def by blast

subsection \<open>Indexing \<open>filters\<close> and \<open>strides\<close>\<close>

lemma py_index_nat: "i < length xs \<Longrightarrow> py_index xs (int i) = Inr (xs ! i)"
  by (simp add: py_index_def)

lemma py_index_pred: "0 < i \<Longrightarrow> i \<le> length xs \<Longrightarrow> py_index xs (int i - 1) = Inr (xs ! (i - 1))"
  by (simp add: py_index_def Let_def nat_diff_distrib')

lemma block_index:
  assumes "0 < i" and "i < 4"
  shows "py_index (filters k) (int i) = Inr (filters k ! i)"
    and "py_index (filters k) (int i - 1) = Inr (filters k ! (i - 1))"
    and "py_index strides (int i - 1) = Inr (strides ! (i - 1))"
  using assms by (simp_all add: py_index_nat py_index_pred filters_def strides_def)

lemma block_cases: "0 < i \<Longrightarrow> i < 4 \<Longrightarrow> i = 1 \<or> i = 2 \<or> i = (3::nat)"
  by arith

lemma filters_positive: "1 \<le> k \<Longrightarrow> i < 4 \<Longrightarrow> 0 < filters k ! i"
  by (cases i rule: nat.exhaust; simp add: filters_def numeral_eq_Suc less_Suc_eq_0_disj; auto)

lemma strides_positive: "0 < i \<Longrightarrow> i < 4 \<Longrightarrow> 0 < strides ! (i - 1)"
  using block_cases[of i] by (auto simp: strides_def)

lemma equal_filters_stride:
  assumes "1 \<le> k" and "0 < i" and "i < 4" and "filters k ! (i - 1) = filters k ! i"
  shows "strides ! (i - 1) = 1"
  using block_cases[OF assms(2,3)] assms(1,4) by (auto simp: filters_def strides_def)

lemma bind_return: "bind (return v) f = f v"
  by (rule ext) (simp add: bind_def return_def)

lemma bind_lift_Inr: "bind (lift (Inr v)) f = f v"
  by (rule ext) (simp add: bind_def lift_def)

lemma first_unit_shortcut_cases:
  assumes "first_unit_shortcut k i x g = Inr (s, g')" and "1 \<le> k" and "0 < i" and "i < 4"
  shows "(s = Identity x \<and> g' = g \<and> strides ! (i - 1) = 1 \<and> filters k ! (i - 1) = filters k ! i) \<or>
         (conv x 1 (filters k ! i) (strides ! (i - 1)) SAME ''shortcut'' g = Inr (s, g') \<and>
          filters k ! (i - 1) \<noteq> filters k ! i)"
proof (cases "filters k ! (i - 1) = filters k ! i")
  case True
  with equal_filters_stride[OF assms(2-4)] assms(1) show ?thesis
    by (simp add: first_unit_shortcut_def block_index[OF assms(3,4)] bind_lift_Inr return_Inr)
next
  case False
  with assms(1) show ?thesis
    by (simp add: first_unit_shortcut_def block_index[OF assms(3,4)] bind_lift_Inr)
qed


subsection \<open>Residual units\<close>

lemma first_unit_alt:
  "first_unit k phase bn_decay i x =
     variable_scope (unit_name i 0)
      (bind (batch_norm x phase bn_decay ''bn_1'') (\<lambda>b.
       bind (first_unit_shortcut k i (Relu b)) (\<lambda>shortcut.
       bind (lift (py_index (filters k) (int i))) (\<lambda>out_channels.
       bind (lift (py_index strides (int i - 1))) (\<lambda>stride.
         residual phase bn_decay out_channels stride (Relu b) shortcut)))))"
  unfolding first_unit_def residual_def bind_return first_unit_name by (rule refl)

lemma further_unit_alt:
  "further_unit k phase bn_decay i j x =
     variable_scope (unit_name i j)
      (bind (batch_norm x phase bn_decay ''bn_1'') (\<lambda>b.
       bind (lift (py_index (filters k) (int i))) (\<lambda>out_channels.
         residual phase bn_decay out_channels 1 (Relu b) x)))"
  by (simp add: further_unit_def residual_def bind_return unit_name_def)

lemma first_unit_Inr:
  assumes r: "first_unit k phase bn_decay i x g = Inr (out, g')"
    and k: "1 \<le> k" and i: "0 < i" "i < 4"
    and x: "get_shape x = [n, h, w, Some (filters k ! (i - 1))]"
  shows "builds_under (scope g @ [unit_name i 0]) g g'"
    and "get_shape out = [n, conv_dim SAME h (Some 3) (strides ! (i - 1)),
           conv_dim SAME w (Some 3) (strides ! (i - 1)), Some (filters k ! i)]"
    and "unit_input (FirstUnit (filters k ! i) (strides ! (i - 1))) out = Some x"
proof -
  let ?p = "scope g @ [unit_name i 0]"
  let ?g0 = "g\<lparr>scope := ?p\<rparr>"
  let ?c = "filters k ! i" and ?s = "strides ! (i - 1)"
  from r obtain b g1 sc g2 g3 where
    r1: "batch_norm x phase bn_decay ''bn_1'' ?g0 = Inr (b, g1)"
    and r2: "first_unit_shortcut k i (Relu b) g1 = Inr (sc, g2)"
    and r3: "residual phase bn_decay ?c ?s (Relu b) sc g2 = Inr (out, g3)"
    and g': "g' = g3\<lparr>scope := scope g\<rparr>"
    unfolding first_unit_alt
    by (auto simp: variable_scope_Inr bind_Inr lift_Inr block_index[OF i])
  have b1: "builds_under ?p ?g0 g1"
    using builds_under_layer[OF batch_norm_builds[OF r1]] by simp
  have e1: "scope g1 = ?p" using builds_under_scope_eq[OF b1] by simp
  have sb: "get_shape (Relu b) = [n, h, w, Some (filters k ! (i - 1))]"
    using batch_norm_shape[OF r1 x] by simp
  have fb: "is_BatchNormalization b \<and> bn_input b = x" using batch_norm_form[OF r1] .
  from first_unit_shortcut_cases[OF r2 k i]
  have sc: "builds_under ?p g1 g2 \<and>
        get_shape sc = [n, conv_dim SAME h (Some 3) ?s, conv_dim SAME w (Some 3) ?s, Some ?c] \<and>
        (sc = Identity (Relu b) \<and> ?s = 1 \<or> is_conv sc (Relu b) 1 ?c ?s)"
  proof
    assume a: "sc = Identity (Relu b) \<and> g2 = g1 \<and> ?s = 1 \<and> filters k ! (i - 1) = ?c"
    then show ?thesis
      using sb by (simp add: builds_under_refl conv_dim_SAME_1)
  next
    assume a: "conv (Relu b) 1 ?c ?s SAME ''shortcut'' g1 = Inr (sc, g2) \<and>
          filters k ! (i - 1) \<noteq> ?c"
    then have c: "conv (Relu b) 1 ?c ?s SAME ''shortcut'' g1 = Inr (sc, g2)" by simp
    have "builds_under ?p g1 g2"
      using builds_under_layer[OF conv_builds[OF c]] e1 by simp
    moreover have "get_shape sc =
        [n, conv_dim SAME h (Some 3) ?s, conv_dim SAME w (Some 3) ?s, Some ?c]"
      using conv_shape[OF c] sb conv_dim_SAME_filter[of _ "Some 1" ?s "Some 3"] by auto
    ultimately show ?thesis
      using conv_is_conv[OF c] by simp
  qed
  have e2: "scope g2 = ?p" using builds_under_scope_eq[OF conjunct1[OF sc]] e1 by simp
  note res = residual_Inr[OF r3 sb conjunct1[OF conjunct2[OF sc]]]
  have b3: "builds_under ?p g2 g3" using res(1) e2 by simp
  have "builds_under ?p ?g0 g3"
    by (rule builds_under_trans[OF builds_under_trans[OF b1 conjunct1[OF sc]] b3])
  then show "builds_under ?p g g'"
    unfolding g' by (rule builds_under_scope)
  show "get_shape out = [n, conv_dim SAME h (Some 3) ?s, conv_dim SAME w (Some 3) ?s, Some ?c]"
    using res(2) sc by simp
  show "unit_input (FirstUnit ?c ?s) out = Some x"
    using res(3) sc fb by auto
qed

lemma further_unit_Inr:
  assumes r: "further_unit k phase bn_decay i j x g = Inr (out, g')"
    and i: "0 < i" "i < 4"
    and x: "get_shape x = [n, h, w, Some (filters k ! i)]"
  shows "builds_under (scope g @ [unit_name i j]) g g'"
    and "get_shape out = get_shape x"
    and "unit_input (FurtherUnit (filters k ! i)) out = Some x"
proof -
  let ?p = "scope g @ [unit_name i j]"
  let ?g0 = "g\<lparr>scope := ?p\<rparr>"
  let ?c = "filters k ! i"
  from r obtain b g1 g3 where
    r1: "batch_norm x phase bn_decay ''bn_1'' ?g0 = Inr (b, g1)"
    and r3: "residual phase bn_decay ?c 1 (Relu b) x g1 = Inr (out, g3)"
    and g': "g' = g3\<lparr>scope := scope g\<rparr>"
    unfolding further_unit_alt
    by (auto simp: variable_scope_Inr bind_Inr lift_Inr block_index[OF i])
  have b1: "builds_under ?p ?g0 g1"
    using builds_under_layer[OF batch_norm_builds[OF r1]] by simp
  have e1: "scope g1 = ?p" using builds_under_scope_eq[OF b1] by simp
  have sb: "get_shape (Relu b) = [n, h, w, Some ?c]"
    using batch_norm_shape[OF r1 x] by simp
  have fb: "is_BatchNormalization b \<and> bn_input b = x" using batch_norm_form[OF r1] .
  have sx: "get_shape x = [n, conv_dim SAME h (Some 3) 1, conv_dim SAME w (Some 3) 1, Some ?c]"
    using x by (simp add: conv_dim_SAME_1)
  note res = residual_Inr[OF r3 sb sx]
  have "builds_under ?p g1 g3" using res(1) e1 by simp
  with b1 have "builds_under ?p ?g0 g3"
    by (rule builds_under_trans)
  then show "builds_under ?p g g'"
    unfolding g' by (rule builds_under_scope)
  show "get_shape out = get_shape x"
    using res(2) .
  show "unit_input (FurtherUnit ?c) out = Some x"
    using res(3) fb by (auto simp: is_bn_relu_def)
qed

lemma unit_scope_unused:
  assumes "unused (scope g @ [u]) g"
  shows "unused (scope (g\<lparr>scope := scope g @ [u]\<rparr>) @ [a]) (g\<lparr>scope := scope g @ [u]\<rparr>)"
  using unused_longer[OF assms, of "scope g @ [u, a]"] by (simp add: unused_scope)

lemma first_unit_progress:
  assumes k: "1 \<le> k" and i: "0 < i" "i < 4"
    and x: "get_shape x = [n, h, w, Some (filters k ! (i - 1))]"
    and ph: "get_shape phase = []" and re: "reuse g \<noteq> Reuse"
    and u: "unused (scope g @ [unit_name i 0]) g"
  shows "\<exists>out g'. first_unit k phase bn_decay i x g = Inr (out, g')"
proof -
  let ?p = "scope g @ [unit_name i 0]"
  let ?g0 = "g\<lparr>scope := ?p\<rparr>"
  let ?c = "filters k ! i" and ?s = "strides ! (i - 1)"
  have u0: "\<And>a. unused (?p @ [a]) ?g0" using unit_scope_unused[OF u] by simp
  have re0: "reuse ?g0 \<noteq> Reuse" using re by simp
  have pos: "0 < ?c" "0 < ?s"
    using filters_positive[OF k i(2)] strides_positive[OF i] by simp_all
  have "\<exists>b g1. batch_norm x phase bn_decay ''bn_1'' ?g0 = Inr (b, g1)"
    using batch_norm_progress[OF x ph re0, of "''bn_1''" bn_decay] u0 by simp
  then obtain b g1 where
    r1: "batch_norm x phase bn_decay ''bn_1'' ?g0 = Inr (b, g1)" by blast
  have b1: "builds_under (?p @ [''bn_1'']) ?g0 g1"
    using batch_norm_builds[OF r1] by simp
  have e1: "scope g1 = ?p" "reuse g1 \<noteq> Reuse"
    using builds_under_scope_eq[OF b1] builds_under_reuse_eq[OF b1] re by simp_all
  have u1: "unused (?p @ [''shortcut'']) g1" "unused (?p @ [''conv_1'']) g1"
    "unused (?p @ [''bn_2'']) g1" "unused (?p @ [''conv_2'']) g1"
    using unused_step[OF b1 u0] by simp_all
  have sb: "get_shape (Relu b) = [n, h, w, Some (filters k ! (i - 1))]"
    using batch_norm_shape[OF r1 x] by simp
  have "\<exists>sc g2. first_unit_shortcut k i (Relu b) g1 = Inr (sc, g2)"
  proof (cases "filters k ! (i - 1) = ?c")
    case True
    with equal_filters_stride[OF k i] show ?thesis
      by (simp add: first_unit_shortcut_def block_index[OF i] bind_lift_Inr return_def)
  next
    case False
    with conv_progress[OF sb _ pos e1(2), of 1 "''shortcut''"] u1(1) e1(1) show ?thesis
      by (simp add: first_unit_shortcut_def block_index[OF i] bind_lift_Inr)
  qed
  then obtain sc g2 where r2: "first_unit_shortcut k i (Relu b) g1 = Inr (sc, g2)" by blast
  from first_unit_shortcut_cases[OF r2 k i]
  have sc: "builds_under (?p @ [''shortcut'']) g1 g2 \<and>
        get_shape sc = [n, conv_dim SAME h (Some 3) ?s, conv_dim SAME w (Some 3) ?s, Some ?c]"
  proof
    assume a: "sc = Identity (Relu b) \<and> g2 = g1 \<and> ?s = 1 \<and> filters k ! (i - 1) = ?c"
    then show ?thesis
      using sb by (simp add: builds_under_refl conv_dim_SAME_1)
  next
    assume a: "conv (Relu b) 1 ?c ?s SAME ''shortcut'' g1 = Inr (sc, g2) \<and>
          filters k ! (i - 1) \<noteq> ?c"
    then have c: "conv (Relu b) 1 ?c ?s SAME ''shortcut'' g1 = Inr (sc, g2)" by simp
    have "get_shape sc =
        [n, conv_dim SAME h (Some 3) ?s, conv_dim SAME w (Some 3) ?s, Some ?c]"
      using conv_shape[OF c] sb conv_dim_SAME_filter[of _ "Some 1" ?s "Some 3"] by auto
    then show ?thesis
      using conv_builds[OF c] e1 by simp
  qed
  have e2: "scope g2 = ?p" "reuse g2 \<noteq> Reuse"
    using builds_under_scope_eq[OF conjunct1[OF sc]] builds_under_reuse_eq[OF conjunct1[OF sc]] e1
    by simp_all
  have u2: "unused (scope g2 @ [''conv_1'']) g2" "unused (scope g2 @ [''bn_2'']) g2"
    "unused (scope g2 @ [''conv_2'']) g2"
    unfolding e2(1) using unused_step[OF conjunct1[OF sc]] u1 by simp_all
  from residual_progress[OF sb conjunct2[OF sc] pos ph e2(2) u2] obtain out g3 where
    r3: "residual phase bn_decay ?c ?s (Relu b) sc g2 = Inr (out, g3)" by blast
  show ?thesis
    unfolding first_unit_alt using r1 r2 r3
    by (simp add: variable_scope_def bind_def lift_def block_index[OF i])
qed

lemma further_unit_progress:
  assumes k: "1 \<le> k" and i: "0 < i" "i < 4"
    and x: "get_shape x = [n, h, w, Some (filters k ! i)]"
    and ph: "get_shape phase = []" and re: "reuse g \<noteq> Reuse"
    and u: "unused (scope g @ [unit_name i j]) g"
  shows "\<exists>out g'. further_unit k phase bn_decay i j x g = Inr (out, g')"
proof -
  let ?p = "scope g @ [unit_name i j]"
  let ?g0 = "g\<lparr>scope := ?p\<rparr>"
  let ?c = "filters k ! i"
  have u0: "\<And>a. unused (?p @ [a]) ?g0" using unit_scope_unused[OF u] by simp
  have re0: "reuse ?g0 \<noteq> Reuse" using re by simp
  have pos: "0 < ?c" using filters_positive[OF k i(2)] .
  have "\<exists>b g1. batch_norm x phase bn_decay ''bn_1'' ?g0 = Inr (b, g1)"
    using batch_norm_progress[OF x ph re0, of "''bn_1''" bn_decay] u0 by simp
  then obtain b g1 where
    r1: "batch_norm x phase bn_decay ''bn_1'' ?g0 = Inr (b, g1)" by blast
  have b1: "builds_under (?p @ [''bn_1'']) ?g0 g1"
    using batch_norm_builds[OF r1] by simp
  have e1: "scope g1 = ?p" "reuse g1 \<noteq> Reuse"
    using builds_under_scope_eq[OF b1] builds_under_reuse_eq[OF b1] re by simp_all
  have u1: "unused (scope g1 @ [''conv_1'']) g1" "unused (scope g1 @ [''bn_2'']) g1"
    "unused (scope g1 @ [''conv_2'']) g1"
    unfolding e1(1) using unused_step[OF b1 u0] by simp_all
  have sb: "get_shape (Relu b) = [n, h, w, Some ?c]"
    using batch_norm_shape[OF r1 x] by simp
  have sx: "get_shape x = [n, conv_dim SAME h (Some 3) 1, conv_dim SAME w (Some 3) 1, Some ?c]"
    using x by (simp add: conv_dim_SAME_1)
  have "\<exists>out g3. residual phase bn_decay ?c 1 (Relu b) x g1 = Inr (out, g3)"
    using residual_progress[OF sb sx pos _ ph e1(2) u1, of bn_decay] by simp
  then obtain out g3 where
    r3: "residual phase bn_decay ?c 1 (Relu b) x g1 = Inr (out, g3)" by blast
  show ?thesis
    unfolding further_unit_alt using r1 r3
    by (simp add: variable_scope_def bind_def lift_def block_index[OF i])
qed


subsection \<open>The loops\<close>

lemma strip_units_append:
  "strip_units (us @ vs) t =
     (case strip_units us t of None \<Rightarrow> None | Some x \<Rightarrow> strip_units vs x)"
  by (induction us arbitrary: t) (auto split: option.splits)

lemma strip_units_snoc:
  "strip_units us t = Some y \<Longrightarrow> unit_input u y = Some x \<Longrightarrow> strip_units (us @ [u]) t = Some x"
  by (simp add: strip_units_append)

lemma further_units_Inr:
  assumes "further_units k phase bn_decay i js x g = Inr (out, g')"
    and i: "0 < i" "i < 4"
    and "get_shape x = [n, h, w, Some (filters k ! i)]"
  shows "builds_under (scope g) g g' \<and> keeps_unused (range (unit_name i)) g g' \<and>
         get_shape out = get_shape x \<and>
         strip_units (replicate (length js) (FurtherUnit (filters k ! i))) out = Some x"
  using assms(1,4)
proof (induction js arbitrary: x g)
  case Nil
  then show ?case
    by (simp add: return_Inr builds_under_refl keeps_unused_refl)
next
  case (Cons j js)
  from Cons.prems(1) obtain x1 g1 where
    r1: "further_unit k phase bn_decay i j x g = Inr (x1, g1)"
    and r2: "further_units k phase bn_decay i js x1 g1 = Inr (out, g')"
    by (auto simp: bind_Inr)
  note u = further_unit_Inr[OF r1 i Cons.prems(2)]
  have x1: "get_shape x1 = [n, h, w, Some (filters k ! i)]"
    using u(2) Cons.prems(2) by simp
  note ih = Cons.IH[OF r2 x1]
  have e: "scope g1 = scope g" using builds_under_scope_eq[OF u(1)] .
  have b: "builds_under (scope g) g g'"
    using builds_under_trans[OF builds_under_layer[OF u(1)]] ih e by simp
  have "keeps_unused ({unit_name i j} \<union> range (unit_name i)) g g'"
    using keeps_unused_trans[OF keeps_unused_layer[OF u(1)] _ e] ih by blast
  then have ku: "keeps_unused (range (unit_name i)) g g'"
    by (rule keeps_unused_mono) auto
  have "strip_units (replicate (length js) (FurtherUnit (filters k ! i)) @
          [FurtherUnit (filters k ! i)]) out = Some x"
    using strip_units_snoc[OF _ u(3)] ih by blast
  then have "strip_units (replicate (length (j # js)) (FurtherUnit (filters k ! i))) out = Some x"
    by (simp add: replicate_append_same)
  with b ku ih x1 Cons.prems(2) show ?case by simp
qed

lemma further_units_progress:
  assumes k: "1 \<le> k" and i: "0 < i" "i < 4" and ph: "get_shape phase = []"
    and "get_shape x = [n, h, w, Some (filters k ! i)]"
    and "reuse g \<noteq> Reuse" and "distinct js"
    and "\<forall>j \<in> set js. unused (scope g @ [unit_name i j]) g"
  shows "\<exists>out g'. further_units k phase bn_decay i js x g = Inr (out, g')"
  using assms(5-8)
proof (induction js arbitrary: x g)
  case Nil
  then show ?case by (simp add: return_def)
next
  case (Cons j js)
  have "unused (scope g @ [unit_name i j]) g" using Cons.prems(4) by simp
  from further_unit_progress[OF k i Cons.prems(1) ph Cons.prems(2) this] obtain x1 g1 where
    r1: "further_unit k phase bn_decay i j x g = Inr (x1, g1)" by blast
  note u = further_unit_Inr[OF r1 i Cons.prems(1)]
  have x1: "get_shape x1 = [n, h, w, Some (filters k ! i)]"
    using u(2) Cons.prems(1) by simp
  have e: "scope g1 = scope g" "reuse g1 \<noteq> Reuse"
    using builds_under_scope_eq[OF u(1)] builds_under_reuse_eq[OF u(1)] Cons.prems(2)
    by simp_all
  have "\<forall>j' \<in> set js. unused (scope g1 @ [unit_name i j']) g1"
  proof
    fix j' assume j': "j' \<in> set js"
    then have "j \<noteq> j'" using Cons.prems(3) by auto
    then have "unit_name i j \<noteq> unit_name i j'"
      using unit_name_inj[of i i j j'] i by auto
    from unused_step[OF u(1) _ this] Cons.prems(4) j' show "unused (scope g1 @ [unit_name i j']) g1"
      unfolding e(1) by simp
  qed
  from Cons.IH[OF x1 e(2) _ this] Cons.prems(3) obtain out g' where
    "further_units k phase bn_decay i js x1 g1 = Inr (out, g')" by auto
  with r1 show ?case by (simp add: bind_def)
qed

lemma bind_return_right: "bind m return = m"
  by (rule ext) (simp add: bind_def return_def split: sum.splits)

lemma upt_1_4: "[1..<4] = [1, 2, 3::nat]"
  by (simp add: upt_rec)

lemma residual_blocks_alt:
  "residual_blocks k num phase bn_decay [1..<4] x =
     bind (block k num phase bn_decay 1 x) (\<lambda>x.
     bind (block k num phase bn_decay 2 x) (block k num phase bn_decay 3))"
proof -
  have a: "\<And>m f h. bind (bind m f) h = bind m (\<lambda>x. bind (f x) h)"
    by (rule ext) (simp add: bind_def split: sum.splits)
  have c: "\<And>i is. residual_blocks k num phase bn_decay (i # is) =
      (\<lambda>x. bind (first_unit k phase bn_decay i x) (\<lambda>x.
         bind (further_units k phase bn_decay i [1..<num] x)
           (residual_blocks k num phase bn_decay is)))"
    by (rule ext) simp
  have n: "residual_blocks k num phase bn_decay [] = return"
    by (rule ext) simp
  show ?thesis
    unfolding upt_1_4 block_def c n
    by (simp add: a bind_return_right)
qed

lemma block_Inr:
  assumes r: "block k num phase bn_decay i x g = Inr (out, g')"
    and k: "1 \<le> k" and i: "0 < i" "i < 4"
    and x: "get_shape x = [n, h, w, Some (filters k ! (i - 1))]"
  shows "builds_under (scope g) g g'"
    and "keeps_unused (range (unit_name i)) g g'"
    and "get_shape out = [n, conv_dim SAME h (Some 3) (strides ! (i - 1)),
           conv_dim SAME w (Some 3) (strides ! (i - 1)), Some (filters k ! i)]"
    and "strip_units (replicate (num - 1) (FurtherUnit (filters k ! i)) @
           [FirstUnit (filters k ! i) (strides ! (i - 1))]) out = Some x"
proof -
  from r obtain x1 g1 where
    r1: "first_unit k phase bn_decay i x g = Inr (x1, g1)"
    and r2: "further_units k phase bn_decay i [1..<num] x1 g1 = Inr (out, g')"
    unfolding block_def by (auto simp: bind_Inr)
  note u = first_unit_Inr[OF r1 k i x]
  note f = further_units_Inr[OF r2 i u(2)]
  have e: "scope g1 = scope g" using builds_under_scope_eq[OF u(1)] .
  show "builds_under (scope g) g g'"
    using builds_under_trans[OF builds_under_layer[OF u(1)]] f e by simp
  have "keeps_unused ({unit_name i 0} \<union> range (unit_name i)) g g'"
    using keeps_unused_trans[OF keeps_unused_layer[OF u(1)] _ e] f by blast
  then show "keeps_unused (range (unit_name i)) g g'"
    by (rule keeps_unused_mono) auto
  show "get_shape out = [n, conv_dim SAME h (Some 3) (strides ! (i - 1)),
           conv_dim SAME w (Some 3) (strides ! (i - 1)), Some (filters k ! i)]"
    using f u(2) by simp
  show "strip_units (replicate (num - 1) (FurtherUnit (filters k ! i)) @
           [FirstUnit (filters k ! i) (strides ! (i - 1))]) out = Some x"
    using strip_units_snoc[OF _ u(3)] f by simp
qed

lemma block_progress:
  assumes k: "1 \<le> k" and i: "0 < i" "i < 4" and ph: "get_shape phase = []"
    and x: "get_shape x = [n, h, w, Some (filters k ! (i - 1))]"
    and re: "reuse g \<noteq> Reuse"
    and u: "\<forall>j. unused (scope g @ [unit_name i j]) g"
  shows "\<exists>out g'. block k num phase bn_decay i x g = Inr (out, g')"
proof -
  from first_unit_progress[OF k i x ph re] u obtain x1 g1 where
    r1: "first_unit k phase bn_decay i x g = Inr (x1, g1)" by blast
  note f = first_unit_Inr[OF r1 k i x]
  have e: "scope g1 = scope g" "reuse g1 \<noteq> Reuse"
    using builds_under_scope_eq[OF f(1)] builds_under_reuse_eq[OF f(1)] re by simp_all
  have un: "\<forall>j \<in> set [1..<num]. unused (scope g1 @ [unit_name i j]) g1"
  proof
    fix j assume "j \<in> set [1..<num]"
    then have "0 \<noteq> j" by simp
    then have "unit_name i 0 \<noteq> unit_name i j"
      using unit_name_inj[of i i 0 j] i by auto
    from unused_step[OF f(1) _ this] u show "unused (scope g1 @ [unit_name i j]) g1"
      unfolding e(1) by simp
  qed
  have "\<exists>out g'. further_units k phase bn_decay i [1..<num] x1 g1 = Inr (out, g')"
    using further_units_progress[OF k i ph f(2) e(2) _ un, of bn_decay] by simp
  with r1 show ?thesis by (auto simp: block_def bind_def)
qed

section \<open>The head of the network\<close>

lemma last_unit_Inr:
  assumes r: "last_unit phase bn_decay x g = Inr (out, g')"
    and x: "get_shape x = [n, h, w, Some c]"
  shows "builds_under (scope g @ [''unit_last'']) g g'"
    and "get_shape out = [n, Some c]"
    and "is_ReduceMean out \<and> reduce_axes out = [1, 2] \<and> is_bn_relu (reduce_input out) x"
proof -
  let ?p = "scope g @ [''unit_last'']"
  from r obtain b g1 where
    r1: "batch_norm x phase bn_decay ''batch_norm'' (g\<lparr>scope := ?p\<rparr>) = Inr (b, g1)"
    and out: "out = ReduceMean (Relu b) [1, 2]"
    and g': "g' = g1\<lparr>scope := scope g\<rparr>"
    unfolding last_unit_def
    by (auto simp: variable_scope_Inr bind_Inr lift_Inr return_Inr tf_simple_Inr)
  have "builds_under ?p (g\<lparr>scope := ?p\<rparr>) g1"
    using builds_under_layer[OF batch_norm_builds[OF r1]] by simp
  then show "builds_under ?p g g'"
    unfolding g' by (rule builds_under_scope)
  show "get_shape out = [n, Some c]"
    unfolding out using batch_norm_shape[OF r1 x] by simp
  show "is_ReduceMean out \<and> reduce_axes out = [1, 2] \<and> is_bn_relu (reduce_input out) x"
    unfolding out using batch_norm_form[OF r1] by (simp add: is_bn_relu_def)
qed

lemma last_unit_progress:
  assumes x: "get_shape x = [n, h, w, Some c]" and ph: "get_shape phase = []"
    and re: "reuse g \<noteq> Reuse" and u: "unused (scope g @ [''unit_last'']) g"
  shows "\<exists>out g'. last_unit phase bn_decay x g = Inr (out, g')"
proof -
  let ?g0 = "g\<lparr>scope := scope g @ [''unit_last'']\<rparr>"
  have "\<exists>b g1. batch_norm x phase bn_decay ''batch_norm'' ?g0 = Inr (b, g1)"
    using batch_norm_progress[OF x ph, of ?g0 "''batch_norm''" bn_decay] re
      unit_scope_unused[OF u] by simp
  then obtain b g1 where
    r1: "batch_norm x phase bn_decay ''batch_norm'' ?g0 = Inr (b, g1)" by blast
  have "get_shape (Relu b) = [n, h, w, Some c]"
    using batch_norm_shape[OF r1 x] by simp
  then have "tf_reduce_mean (Relu b) [1, 2] = Inr (ReduceMean (Relu b) [1, 2])"
    by (simp add: tf_reduce_mean_def)
  with r1 show ?thesis
    unfolding last_unit_def
    by (simp add: variable_scope_def bind_def lift_def return_def)
qed

lemma reshape_shape_rows:
  assumes "0 < c"
  shows "reshape_shape [n, Some c] [- 1, int c] = [n, Some c]"
  using assms by (cases n) (simp_all add: reshape_shape_def fully_defined_def)

lemma tf_reshape_rows:
  assumes "get_shape x = [n, Some c]" and "0 < c"
  shows "tf_reshape x [Some (- 1), Some (int c)] = Inr (Reshape x [- 1, int c])"
  using assms by (cases n) (simp_all add: tf_reshape_def fully_defined_def)

lemma tf_reshape_Inr:
  "tf_reshape x dims = Inr t \<Longrightarrow> None \<notin> set dims \<and> t = Reshape x (map the dims)"
  by (auto simp: tf_reshape_def Let_def split: if_splits option.splits)

lemma fully_connected_Inr:
  assumes r: "fully_connected x g = Inr (out, g')"
    and x: "get_shape x = [n, Some c]" and c: "0 < c"
  shows "builds_under (scope g @ [''fully-connected'']) g g'"
    and "get_shape out = [n, Some 100]"
    and "\<exists>W b. out = Add (MatMul (Reshape x [- 1, int c]) (Variable W)) (Variable b) \<and>
           length (var_shape W) = 2 \<and> var_shape W ! 1 = 100 \<and> var_shape b = [100] \<and>
           var_name W = scope g @ [''fully-connected'', ''fc'', ''W''] \<and>
           var_name b = scope g @ [''fully-connected'', ''fc'', ''b''] \<and>
           W \<in> set (variables g') \<and> b \<in> set (variables g')"
proof -
  let ?p = "scope g @ [''fully-connected'']"
  let ?g0 = "g\<lparr>scope := ?p\<rparr>"
  from r obtain d t g1 where
    i: "py_index (get_shape x) 1 = Inr d"
    and t: "tf_reshape x [Some (- 1), map_option int d] = Inr t"
    and r1: "fc t 100 ''fc'' ?g0 = Inr (out, g1)"
    and g': "g' = g1\<lparr>scope := scope g\<rparr>"
    unfolding fully_connected_def
    by (auto simp: variable_scope_Inr bind_Inr lift_Inr)
  from i x have d: "d = Some c"
    using py_index_Inr[of "get_shape x" 1 d] by simp
  from tf_reshape_Inr[OF t] d have t': "t = Reshape x [- 1, int c]" by simp
  have st: "get_shape t = [n, Some c]"
    unfolding t' using x c by (simp add: reshape_shape_rows)
  have "builds_under ?p ?g0 g1"
    using builds_under_layer[OF fc_builds[OF r1]] by simp
  then show "builds_under ?p g g'"
    unfolding g' by (rule builds_under_scope)
  show "get_shape out = [n, Some 100]"
    using fc_shape[OF r1] st by simp
  from fc_Inr[OF r1] obtain W b h1 h2 where
    v: "get_variable ''W'' [get_shape t ! 1, Some 100]
        (random_normal_initializer (FloatSqrt (FloatDiv (FloatLit ''1.0'') (FloatOfInt 100))))
        True (?g0\<lparr>scope := scope ?g0 @ [''fc'']\<rparr>) = Inr (W, h1)"
    and vb: "get_variable ''b'' [Some 100] (constant_initializer (FloatLit ''0.0'')) True
        (collect_weight W h1) = Inr (b, h2)"
    and g1: "g1 = h2\<lparr>scope := scope ?g0\<rparr>"
    and out: "out = Add (MatMul t (Variable W)) (Variable b)"
    and sh: "var_shape W ! 1 = 100" "length (var_shape W) = 2" "var_shape b = [100]"
    by blast
  note fW = get_variable_Inr[OF v]
  note fb = get_variable_Inr[OF vb]
  have W: "W \<in> set (variables h1)" using fW(6) by auto
  have b: "b \<in> set (variables h2)" using fb(6) by auto
  have W2: "W \<in> set (variables h2)"
    using fb(6) W by (auto simp: collect_weight_fields)
  have nb: "var_name b = scope g @ [''fully-connected'', ''fc'', ''b'']"
    using fb(1) fW(2) by (simp add: collect_weight_fields)
  show "\<exists>W b. out = Add (MatMul (Reshape x [- 1, int c]) (Variable W)) (Variable b) \<and>
           length (var_shape W) = 2 \<and> var_shape W ! 1 = 100 \<and> var_shape b = [100] \<and>
           var_name W = scope g @ [''fully-connected'', ''fc'', ''W''] \<and>
           var_name b = scope g @ [''fully-connected'', ''fc'', ''b''] \<and>
           W \<in> set (variables g') \<and> b \<in> set (variables g')"
    using out t' sh fW(1) nb W2 b unfolding g' g1 by auto
qed

lemma fully_connected_progress:
  assumes x: "get_shape x = [n, Some c]" and c: "0 < c"
    and re: "reuse g \<noteq> Reuse" and u: "unused (scope g @ [''fully-connected'']) g"
  shows "\<exists>out g'. fully_connected x g = Inr (out, g')"
proof -
  let ?g0 = "g\<lparr>scope := scope g @ [''fully-connected'']\<rparr>"
  have st: "get_shape (Reshape x [- 1, int c]) = [n, Some c]"
    using x c by (simp add: reshape_shape_rows)
  have "\<exists>out g1. fc (Reshape x [- 1, int c]) 100 ''fc'' ?g0 = Inr (out, g1)"
    using fc_progress[OF st, of 100 ?g0 "''fc''"] re unit_scope_unused[OF u] by simp
  then obtain out g1 where r1: "fc (Reshape x [- 1, int c]) 100 ''fc'' ?g0 = Inr (out, g1)"
    by blast
  show ?thesis
    unfolding fully_connected_def using r1 x tf_reshape_rows[OF x c]
    by (simp add: variable_scope_def bind_def lift_def py_index_def)
qed

lemma add_weight_decay_eq:
  "add_weight_decay weight_decay Ws g =
     Inr ((), g\<lparr>collections := (collections g)
        (REGULARIZATION_LOSSES := collections g REGULARIZATION_LOSSES @
           map (decay_term weight_decay) Ws)\<rparr>)"
proof (induction Ws arbitrary: g)
  case Nil
  show ?case by (simp add: return_def)
next
  case (Cons W Ws)
  have "add_weight_decay weight_decay (W # Ws) g =
      add_weight_decay weight_decay Ws
        (add_to_collection REGULARIZATION_LOSSES (decay_term weight_decay W) g)"
    by (simp add: bind_def lift_def tf_multiply_def broadcast_shape_Nil decay_term_def)
  also have "\<dots> = Inr ((), g\<lparr>collections := (collections g)
        (REGULARIZATION_LOSSES := collections g REGULARIZATION_LOSSES @
           map (decay_term weight_decay) (W # Ws))\<rparr>)"
    unfolding Cons.IH by (simp add: add_to_collection_def)
  finally show ?case .
qed


lemma default_graph_fresh: "unused p default_graph" "reuse default_graph \<noteq> Reuse"
  "scope default_graph = []"
  by (simp_all add: unused_def default_graph_def)

section \<open>Batch normalization\<close>

text \<open>
  Claim C1. For every input tensor \<open>x\<close> and every value of the phase, \<open>batch_norm\<close>
  normalizes \<open>x\<close> with the mean and variance of the batch (the moments of \<open>x\<close>
  over the axes 0, 1 and 2) exactly when the phase equals \<^verbatim>\<open>"train"\<close>, and with
  the stored moving averages, the two variables its update operations assign,
  for every other value of the phase.
\<close>

theorem batch_norm_statistics_by_phase:
  assumes "batch_norm x phase decay name g = Inr (out, g')"
  shows "\<exists>mean_avg variance_avg.
     var_name mean_avg = scope g @ [name, ''mean_avg''] \<and>
     var_name variance_avg = scope g @ [name, ''std_avg''] \<and>
     mean_avg \<in> set (variables g') \<and> variance_avg \<in> set (variables g') \<and>
     moving_average_update decay mean_avg (MomentsMean x [0, 1, 2])
       \<in> set (get_collection UPDATE_OPS g') \<and>
     moving_average_update decay variance_avg (MomentsVariance x [0, 1, 2])
       \<in> set (get_collection UPDATE_OPS g') \<and>
     is_BatchNormalization out \<and> bn_input out = x \<and>
     (\<forall>\<sigma>. cond_select \<sigma> (bn_mean out) =
            (if eval_string \<sigma> phase = ''train'' then MomentsMean x [0, 1, 2]
             else Variable mean_avg) \<and>
          cond_select \<sigma> (bn_variance out) =
            (if eval_string \<sigma> phase = ''train'' then MomentsVariance x [0, 1, 2]
             else Variable variance_avg))"
proof -
  from batch_norm_Inr[OF assms] obtain mean_avg variance_avg beta gamma g1 g2 g3 g4 where
    v1: "get_variable ''mean_avg'' (drop_axes 0 [0, 1, 2] (get_shape x)) zeros_initializer False
        (g\<lparr>scope := scope g @ [name]\<rparr>) = Inr (mean_avg, g1)"
    and v2: "get_variable ''std_avg'' (drop_axes 0 [0, 1, 2] (get_shape x)) ones_initializer False g1
        = Inr (variance_avg, g2)"
    and v3: "get_variable ''beta'' (drop_axes 0 [0, 1, 2] (get_shape x)) zeros_initializer True g2
        = Inr (beta, g3)"
    and v4: "get_variable ''gamma'' (drop_axes 0 [0, 1, 2] (get_shape x)) ones_initializer True g3
        = Inr (gamma, g4)"
    and g': "g' = (add_to_collection UPDATE_OPS
             (moving_average_update decay variance_avg (MomentsVariance x [0, 1, 2]))
          (add_to_collection UPDATE_OPS
             (moving_average_update decay mean_avg (MomentsMean x [0, 1, 2])) g4))
          \<lparr>scope := scope g\<rparr>"
    and out: "out = BatchNormalization x
            (Cond (Equal phase (ConstString ''train'')) (MomentsMean x [0, 1, 2]) (Variable mean_avg))
            (Cond (Equal phase (ConstString ''train'')) (MomentsVariance x [0, 1, 2])
               (Variable variance_avg))
            (Variable beta) (Variable gamma) (FloatLit ''1e-5'')"
    by blast
  note f1 = get_variable_Inr[OF v1] and f2 = get_variable_Inr[OF v2]
    and f3 = get_variable_Inr[OF v3] and f4 = get_variable_Inr[OF v4]
  have m1: "mean_avg \<in> set (variables g1)" using f1(6) by auto
  have m2: "variance_avg \<in> set (variables g2)" "set (variables g1) \<subseteq> set (variables g2)"
    using f2(6) by auto
  have m3: "set (variables g2) \<subseteq> set (variables g3)" using f3(6) by auto
  have m4: "set (variables g3) \<subseteq> set (variables g4)" using f4(6) by auto
  have "mean_avg \<in> set (variables g')" "variance_avg \<in> set (variables g')"
    unfolding g' using m1 m2 m3 m4 by (auto simp: add_to_collection_fields)
  moreover have "var_name mean_avg = scope g @ [name, ''mean_avg'']"
    "var_name variance_avg = scope g @ [name, ''std_avg'']"
    using f1(1) f2(1) f1(2) by simp_all
  moreover have "moving_average_update decay mean_avg (MomentsMean x [0, 1, 2])
       \<in> set (get_collection UPDATE_OPS g')"
    "moving_average_update decay variance_avg (MomentsVariance x [0, 1, 2])
       \<in> set (get_collection UPDATE_OPS g')"
    unfolding g' by (simp_all add: get_collection_simps)
  ultimately show ?thesis
    unfolding out by (intro exI[of _ mean_avg] exI[of _ variance_avg]) simp
qed

text \<open>The statement at a concrete layer on a fresh graph.\<close>

theorem batch_norm_statistics_by_phase_witness:
  "\<exists>out g' mean_avg variance_avg.
     batch_norm example_input example_phase (FloatLit ''0.9'') ''bn_1'' default_graph
       = Inr (out, g') \<and>
     var_name mean_avg = [''bn_1'', ''mean_avg''] \<and>
     var_name variance_avg = [''bn_1'', ''std_avg''] \<and>
     cond_select (\<lambda>t. ''train'') (bn_mean out) = MomentsMean example_input [0, 1, 2] \<and>
     cond_select (\<lambda>t. ''test'') (bn_mean out) = Variable mean_avg \<and>
     cond_select (\<lambda>t. ''train_eval'') (bn_variance out) = Variable variance_avg"
proof -
  obtain out g' where
    r: "batch_norm example_input example_phase (FloatLit ''0.9'') ''bn_1'' default_graph
          = Inr (out, g')"
    using batch_norm_progress[of example_input None "Some 32" "Some 32" 16 example_phase
        default_graph "''bn_1''" "FloatLit ''0.9''"]
    by (auto simp: example_input_def example_phase_def default_graph_fresh)
  from batch_norm_statistics_by_phase[OF r] obtain mean_avg variance_avg where
    "var_name mean_avg = scope default_graph @ [''bn_1'', ''mean_avg'']"
    "var_name variance_avg = scope default_graph @ [''bn_1'', ''std_avg'']"
    "\<forall>\<sigma>. cond_select \<sigma> (bn_mean out) =
            (if eval_string \<sigma> example_phase = ''train'' then MomentsMean example_input [0, 1, 2]
             else Variable mean_avg) \<and>
          cond_select \<sigma> (bn_variance out) =
            (if eval_string \<sigma> example_phase = ''train'' then MomentsVariance example_input [0, 1, 2]
             else Variable variance_avg)"
    by blast
  then show ?thesis
    using r by (intro exI[of _ out] exI[of _ g'] exI[of _ mean_avg] exI[of _ variance_avg])
      (simp add: default_graph_fresh example_phase_def)
qed

lemma example_batch_norm:
  "\<exists>out g'. batch_norm example_input example_phase decay name default_graph = Inr (out, g')"
  using batch_norm_progress[of example_input None "Some 32" "Some 32" 16 example_phase
      default_graph name decay]
  by (simp add: example_input_def example_phase_def default_graph_fresh)

text \<open>
  Claim C7. Each \<open>batch_norm\<close> layer appends exactly two operations to the
  \<^verbatim>\<open>UPDATE_OPS\<close> collection: they assign to the moving averages of the mean and of
  the variance the value \<open>decay * average + (1.0 - decay) * batch statistic\<close>.
  The normalized tensor itself assigns nothing beyond what computing its inputs
  \<open>x\<close> and \<open>phase\<close> assigns, so the moving averages change only when the two
  update operations are run.
\<close>

theorem batch_norm_update_ops:
  assumes "batch_norm x phase decay name g = Inr (out, g')"
  shows "\<exists>mean_avg variance_avg.
     var_name mean_avg = scope g @ [name, ''mean_avg''] \<and>
     var_name variance_avg = scope g @ [name, ''std_avg''] \<and>
     get_collection UPDATE_OPS g' = get_collection UPDATE_OPS g @
       [Assign mean_avg
          (Add (Mul (ConstFloat decay) (Variable mean_avg))
               (Mul (ConstFloat (FloatSub (FloatLit ''1.0'') decay)) (MomentsMean x [0, 1, 2]))),
        Assign variance_avg
          (Add (Mul (ConstFloat decay) (Variable variance_avg))
               (Mul (ConstFloat (FloatSub (FloatLit ''1.0'') decay))
                  (MomentsVariance x [0, 1, 2])))] \<and>
     set (assigned out) = set (assigned x) \<union> set (assigned phase)"
proof -
  from batch_norm_Inr[OF assms] obtain mean_avg variance_avg beta gamma g1 g2 g3 g4 where
    v1: "get_variable ''mean_avg'' (drop_axes 0 [0, 1, 2] (get_shape x)) zeros_initializer False
        (g\<lparr>scope := scope g @ [name]\<rparr>) = Inr (mean_avg, g1)"
    and v2: "get_variable ''std_avg'' (drop_axes 0 [0, 1, 2] (get_shape x)) ones_initializer False g1
        = Inr (variance_avg, g2)"
    and v3: "get_variable ''beta'' (drop_axes 0 [0, 1, 2] (get_shape x)) zeros_initializer True g2
        = Inr (beta, g3)"
    and v4: "get_variable ''gamma'' (drop_axes 0 [0, 1, 2] (get_shape x)) ones_initializer True g3
        = Inr (gamma, g4)"
    and g': "g' = (add_to_collection UPDATE_OPS
             (moving_average_update decay variance_avg (MomentsVariance x [0, 1, 2]))
          (add_to_collection UPDATE_OPS
             (moving_average_update decay mean_avg (MomentsMean x [0, 1, 2])) g4))
          \<lparr>scope := scope g\<rparr>"
    and out: "out = BatchNormalization x
            (Cond (Equal phase (ConstString ''train'')) (MomentsMean x [0, 1, 2]) (Variable mean_avg))
            (Cond (Equal phase (ConstString ''train'')) (MomentsVariance x [0, 1, 2])
               (Variable variance_avg))
            (Variable beta) (Variable gamma) (FloatLit ''1e-5'')"
    by blast
  note f1 = get_variable_Inr[OF v1] and f2 = get_variable_Inr[OF v2]
    and f3 = get_variable_Inr[OF v3] and f4 = get_variable_Inr[OF v4]
  have c: "collections g4 = collections g"
    using f1(4) f2(4) f3(4) f4(4) by simp
  have "get_collection UPDATE_OPS g' = get_collection UPDATE_OPS g @
       [moving_average_update decay mean_avg (MomentsMean x [0, 1, 2]),
        moving_average_update decay variance_avg (MomentsVariance x [0, 1, 2])]"
    unfolding g' using c by (simp add: get_collection_def add_to_collection_def)
  moreover have "var_name mean_avg = scope g @ [name, ''mean_avg'']"
    "var_name variance_avg = scope g @ [name, ''std_avg'']"
    using f1(1) f2(1) f1(2) by simp_all
  moreover have "set (assigned out) = set (assigned x) \<union> set (assigned phase)"
    unfolding out by auto
  ultimately show ?thesis
    unfolding moving_average_update_def by blast
qed

text \<open>On the fresh graph the collection then holds two operations.\<close>

theorem batch_norm_update_ops_witness:
  "\<exists>out g'.
     batch_norm example_input example_phase (FloatLit ''0.9'') ''bn_1'' default_graph
       = Inr (out, g') \<and>
     length (get_collection UPDATE_OPS g') = 2 \<and> set (assigned out) = {}"
proof -
  from example_batch_norm obtain out g' where
    r: "batch_norm example_input example_phase (FloatLit ''0.9'') ''bn_1'' default_graph
          = Inr (out, g')"
    by blast
  from batch_norm_update_ops[OF r] have
    "length (get_collection UPDATE_OPS g') = 2" "set (assigned out) = {}"
    by (auto simp: get_collection_def default_graph_def example_input_def example_phase_def)
  with r show ?thesis by blast
qed

text \<open>
  Claim C10. In a \<open>batch_norm\<close> layer the moving average of the mean starts at
  zeros and that of the variance at ones, and neither is trainable; the shift
  \<open>beta\<close> starts at zeros and the scale \<open>gamma\<close> at ones, and both are trainable;
  the normalization uses the epsilon \<^verbatim>\<open>1e-5\<close>. Variables are created, not
  reused, as in the module, which never enables reuse.
\<close>

theorem batch_norm_variables:
  assumes "batch_norm x phase decay name g = Inr (out, g')" and "reuse g = NoReuse"
  shows "\<exists>mean_avg variance_avg beta gamma.
     out = BatchNormalization x
            (Cond (Equal phase (ConstString ''train'')) (MomentsMean x [0, 1, 2]) (Variable mean_avg))
            (Cond (Equal phase (ConstString ''train'')) (MomentsVariance x [0, 1, 2])
               (Variable variance_avg))
            (Variable beta) (Variable gamma) (FloatLit ''1e-5'') \<and>
     var_init mean_avg = zeros_initializer \<and> \<not> var_trainable mean_avg \<and>
     var_init variance_avg = ones_initializer \<and> \<not> var_trainable variance_avg \<and>
     var_init beta = zeros_initializer \<and> var_trainable beta \<and>
     var_init gamma = ones_initializer \<and> var_trainable gamma"
proof -
  from batch_norm_Inr[OF assms(1)] obtain mean_avg variance_avg beta gamma g1 g2 g3 g4 where
    v1: "get_variable ''mean_avg'' (drop_axes 0 [0, 1, 2] (get_shape x)) zeros_initializer False
        (g\<lparr>scope := scope g @ [name]\<rparr>) = Inr (mean_avg, g1)"
    and v2: "get_variable ''std_avg'' (drop_axes 0 [0, 1, 2] (get_shape x)) ones_initializer False g1
        = Inr (variance_avg, g2)"
    and v3: "get_variable ''beta'' (drop_axes 0 [0, 1, 2] (get_shape x)) zeros_initializer True g2
        = Inr (beta, g3)"
    and v4: "get_variable ''gamma'' (drop_axes 0 [0, 1, 2] (get_shape x)) ones_initializer True g3
        = Inr (gamma, g4)"
    and out: "out = BatchNormalization x
            (Cond (Equal phase (ConstString ''train'')) (MomentsMean x [0, 1, 2]) (Variable mean_avg))
            (Cond (Equal phase (ConstString ''train'')) (MomentsVariance x [0, 1, 2])
               (Variable variance_avg))
            (Variable beta) (Variable gamma) (FloatLit ''1e-5'')"
    by blast
  have r0: "reuse (g\<lparr>scope := scope g @ [name]\<rparr>) = NoReuse" using assms(2) by simp
  have r1: "reuse g1 = NoReuse" using get_variable_Inr(3)[OF v1] r0 by simp
  have r2: "reuse g2 = NoReuse" using get_variable_Inr(3)[OF v2] r1 by simp
  have r3: "reuse g3 = NoReuse" using get_variable_Inr(3)[OF v3] r2 by simp
  show ?thesis
    using out get_variable_NoReuse[OF v1 r0] get_variable_NoReuse[OF v2 r1]
      get_variable_NoReuse[OF v3 r2] get_variable_NoReuse[OF v4 r3]
    by blast
qed

text \<open>The same, read off the layer built on the fresh graph.\<close>

theorem batch_norm_variables_witness:
  "\<exists>out g'.
     batch_norm example_input example_phase (FloatLit ''0.9'') ''bn_1'' default_graph
       = Inr (out, g') \<and>
     bn_epsilon out = FloatLit ''1e-5'' \<and>
     var_init (the_variable (cond_false (bn_mean out))) = zeros_initializer \<and>
     var_init (the_variable (cond_false (bn_variance out))) = ones_initializer \<and>
     \<not> var_trainable (the_variable (cond_false (bn_mean out))) \<and>
     var_trainable (the_variable (bn_offset out)) \<and> var_trainable (the_variable (bn_scale out))"
proof -
  from example_batch_norm obtain out g' where
    r: "batch_norm example_input example_phase (FloatLit ''0.9'') ''bn_1'' default_graph
          = Inr (out, g')"
    by blast
  have "reuse default_graph = NoReuse" by (simp add: default_graph_def)
  from batch_norm_variables[OF r this] r show ?thesis
    by auto
qed

section \<open>Weights and weight decay\<close>




section \<open>The shortcut of a first residual unit\<close>

text \<open>
  Claim C9. For every width \<open>k \<ge> 1\<close> and each of the three blocks: when the
  filter counts before and in the block are equal, the stride of the block is 1;
  so the shortcut that \<open>set_up\<close> builds is the identity or a \<open>1 \<times> 1\<close>
  convolution, and never a max-pool.
\<close>

theorem max_pool_shortcut_unreachable:
  assumes "1 \<le> k" and "i \<in> {1, 2, 3}"
  shows "(filters k ! (i - 1) = filters k ! i \<longrightarrow> strides ! (i - 1) = 1) \<and>
         (\<forall>x g s g'. first_unit_shortcut k i x g = Inr (s, g') \<longrightarrow>
            \<not> is_MaxPool s \<and>
            (s = Identity x \<or> is_conv s x 1 (filters k ! i) (strides ! (i - 1))))"
proof -
  from assms(2) have i: "0 < i" "i < 4" by auto
  have "filters k ! (i - 1) = filters k ! i \<longrightarrow> strides ! (i - 1) = 1"
    using equal_filters_stride[OF assms(1) i] by simp
  moreover have "\<not> is_MaxPool s \<and>
            (s = Identity x \<or> is_conv s x 1 (filters k ! i) (strides ! (i - 1)))"
    if r: "first_unit_shortcut k i x g = Inr (s, g')" for x g s g'
    using first_unit_shortcut_cases[OF r assms(1) i]
  proof
    assume "s = Identity x \<and> g' = g \<and> strides ! (i - 1) = 1 \<and>
        filters k ! (i - 1) = filters k ! i"
    then show ?thesis by simp
  next
    assume "conv x 1 (filters k ! i) (strides ! (i - 1)) SAME ''shortcut'' g = Inr (s, g') \<and>
        filters k ! (i - 1) \<noteq> filters k ! i"
    then have "is_conv s x 1 (filters k ! i) (strides ! (i - 1))"
      using conv_is_conv by blast
    then show ?thesis by (auto simp: is_conv_def)
  qed
  ultimately show ?thesis by blast
qed

text \<open>Block 1 of width 1: equal filter counts, stride 1, and the shortcut is the identity.\<close>

theorem max_pool_shortcut_unreachable_witness:
  "filters 1 ! 0 = filters 1 ! 1 \<and> strides ! 0 = 1 \<and>
   (\<exists>s g'. first_unit_shortcut 1 1 example_input default_graph = Inr (s, g') \<and>
      \<not> is_MaxPool s \<and> s = Identity example_input)"
proof -
  have a: "filters 1 ! 0 = filters 1 ! 1"
    by (simp add: filters_def)
  have r: "first_unit_shortcut 1 1 example_input default_graph =
      Inr (Identity example_input, default_graph)"
    by (simp add: first_unit_shortcut_def filters_def strides_def py_index_def bind_def
        lift_def return_def)
  from max_pool_shortcut_unreachable[of 1 1] a r show ?thesis
    by auto
qed

section \<open>The whole network\<close>

lemma block_width_positive:
  assumes "block k num phase bn_decay 1 x g = Inr r"
  shows "1 \<le> k"
proof (rule ccontr)
  assume "\<not> 1 \<le> k"
  then have k: "k = 0" by simp
  have i: "0 < (1::nat)" "(1::nat) < 4" by simp_all
  from assms obtain b g1 sc g2 where
    "first_unit_shortcut k 1 (Relu b) g1 = Inr (sc, g2)"
    unfolding block_def first_unit_alt
    by (auto simp: bind_Inr variable_scope_Inr)
  then have "conv (Relu b) 1 0 1 SAME ''shortcut'' g1 = Inr (sc, g2)"
    unfolding first_unit_shortcut_def k
    by (simp add: bind_lift_Inr py_index_def filters_def strides_def)
  from conv_Inr[OF this] show False by simp
qed

lemma filters_values:
  "filters k ! 0 = 16" "filters k ! 1 = 16 * k" "filters k ! 2 = 32 * k" "filters k ! 3 = 64 * k"
  "strides ! 0 = 1" "strides ! 1 = 2" "strides ! 2 = 2"
  by (simp_all add: filters_def strides_def)

lemma residual_blocks_Inr:
  assumes r: "residual_blocks k num phase bn_decay [1..<4] x g = Inr (out, g')"
    and x: "get_shape x = [n, h, w, Some 16]"
  shows "1 \<le> k" and "builds_under (scope g) g g'"
    and "keeps_unused (range (unit_name 1) \<union> range (unit_name 2) \<union> range (unit_name 3)) g g'"
    and "\<exists>h' w'. get_shape out = [n, h', w', Some (64 * k)]"
    and "strip_units (wrn_units_rev num k) out = Some x"
proof -
  from r obtain x1 g1 x2 g2 where
    r1: "block k num phase bn_decay 1 x g = Inr (x1, g1)"
    and r2: "block k num phase bn_decay 2 x1 g1 = Inr (x2, g2)"
    and r3: "block k num phase bn_decay 3 x2 g2 = Inr (out, g')"
    unfolding residual_blocks_alt by (auto simp: bind_Inr)
  show k: "1 \<le> k" using block_width_positive[OF r1] .
  have x0: "get_shape x = [n, h, w, Some (filters k ! (1 - 1))]"
    using x by (simp add: filters_values)
  note b1 = block_Inr[OF r1 k _ _ x0, simplified]
  have x1: "get_shape x1 = [n, conv_dim SAME h (Some 3) (strides ! 0),
      conv_dim SAME w (Some 3) (strides ! 0), Some (filters k ! (2 - 1))]"
    using b1(3) by simp
  note b2 = block_Inr[OF r2 k _ _ x1, simplified]
  have x2: "get_shape x2 = [n,
      conv_dim SAME (conv_dim SAME h (Some 3) (strides ! 0)) (Some 3) (strides ! 1),
      conv_dim SAME (conv_dim SAME w (Some 3) (strides ! 0)) (Some 3) (strides ! 1),
      Some (filters k ! (3 - 1))]"
    using b2(3) by (simp add: numeral_2_eq_2)
  note b3 = block_Inr[OF r3 k _ _ x2, simplified]
  have e: "scope g1 = scope g" "scope g2 = scope g"
    using builds_under_scope_eq[OF b1(1)] builds_under_scope_eq[OF b2(1)] by simp_all
  show "builds_under (scope g) g g'"
    using builds_under_trans[OF builds_under_trans[OF b1(1)]] b2(1) b3(1) e by simp
  have "keeps_unused (range (unit_name 1) \<union> range (unit_name 2)) g g2"
    using keeps_unused_trans[OF _ _ e(1)] b1(2) b2(2) by (simp add: numeral_2_eq_2)
  then show "keeps_unused (range (unit_name 1) \<union> range (unit_name 2) \<union> range (unit_name 3)) g g'"
    using keeps_unused_trans[OF _ b3(2) e(2)] by simp
  show "\<exists>h' w'. get_shape out = [n, h', w', Some (64 * k)]"
    using b3(3) by (simp add: filters_values)
  have "strip_units (replicate (num - 1) (FurtherUnit (filters k ! 3)) @
           [FirstUnit (filters k ! 3) (strides ! 2)]) out = Some x2"
    "strip_units (replicate (num - 1) (FurtherUnit (filters k ! 2)) @
           [FirstUnit (filters k ! 2) (strides ! 1)]) x2 = Some x1"
    "strip_units (replicate (num - 1) (FurtherUnit (filters k ! 1)) @
           [FirstUnit (filters k ! 1) (strides ! 0)]) x1 = Some x"
    using b1(4) b2(4) b3(4) by (simp_all add: numeral_2_eq_2)
  then show "strip_units (wrn_units_rev num k) out = Some x"
    unfolding wrn_units_rev_def filters_values
    by (simp only: strip_units_append option.simps)
qed


lemma unit_name_block:
  "i < 10 \<Longrightarrow> i' < 10 \<Longrightarrow> i \<noteq> i' \<Longrightarrow> unit_name i j \<notin> range (unit_name i')"
  using unit_name_inj[of i i' j] by blast

lemma residual_blocks_progress:
  assumes k: "1 \<le> k" and ph: "get_shape phase = []"
    and x: "get_shape x = [n, h, w, Some 16]"
    and re: "reuse g \<noteq> Reuse"
    and u: "\<forall>i j. i < 4 \<longrightarrow> unused (scope g @ [unit_name i j]) g"
  shows "\<exists>out g'. residual_blocks k num phase bn_decay [1..<4] x g = Inr (out, g')"
proof -
  have x0: "get_shape x = [n, h, w, Some (filters k ! (1 - 1))]"
    using x by (simp add: filters_values)
  have "\<exists>x1 g1. block k num phase bn_decay 1 x g = Inr (x1, g1)"
    using block_progress[OF k _ _ ph x0 re, of num bn_decay] u by simp
  then obtain x1 g1 where r1: "block k num phase bn_decay 1 x g = Inr (x1, g1)" by blast
  note b1 = block_Inr[OF r1 k _ _ x0, simplified]
  have x1: "get_shape x1 = [n, conv_dim SAME h (Some 3) (strides ! 0),
      conv_dim SAME w (Some 3) (strides ! 0), Some (filters k ! (2 - 1))]"
    using b1(3) by simp
  have e1: "scope g1 = scope g" "reuse g1 \<noteq> Reuse"
    using builds_under_scope_eq[OF b1(1)] builds_under_reuse_eq[OF b1(1)] re by simp_all
  have u1: "unused (scope g1 @ [unit_name i j]) g1" if "i = 2 \<or> i = 3" for i j
  proof -
    have "unit_name i j \<notin> range (unit_name 1)"
      using that unit_name_block[of i 1 j] by auto
    have "keeps_unused (range (unit_name 1)) g g1" using b1(2) by simp
    from keeps_unusedD[OF this \<open>unit_name i j \<notin> range (unit_name 1)\<close>] u that show ?thesis
      unfolding e1(1) by auto
  qed
  have "\<exists>x2 g2. block k num phase bn_decay 2 x1 g1 = Inr (x2, g2)"
    using block_progress[OF k _ _ ph x1 e1(2), of num bn_decay] u1 by simp
  then obtain x2 g2 where r2: "block k num phase bn_decay 2 x1 g1 = Inr (x2, g2)" by blast
  note b2 = block_Inr[OF r2 k _ _ x1, simplified]
  have x2: "get_shape x2 = [n,
      conv_dim SAME (conv_dim SAME h (Some 3) (strides ! 0)) (Some 3) (strides ! 1),
      conv_dim SAME (conv_dim SAME w (Some 3) (strides ! 0)) (Some 3) (strides ! 1),
      Some (filters k ! (3 - 1))]"
    using b2(3) by (simp add: numeral_2_eq_2)
  have e2: "scope g2 = scope g1" "reuse g2 \<noteq> Reuse"
    using builds_under_scope_eq[OF b2(1)] builds_under_reuse_eq[OF b2(1)] e1 by simp_all
  have u2: "unused (scope g2 @ [unit_name 3 j]) g2" for j
  proof -
    have "unit_name 3 j \<notin> range (unit_name 2)"
      using unit_name_block[of 3 2 j] by simp
    have "keeps_unused (range (unit_name 2)) g1 g2" using b2(2) by (simp add: numeral_2_eq_2)
    from keeps_unusedD[OF this \<open>unit_name 3 j \<notin> range (unit_name 2)\<close>] u1[of 3 j] show ?thesis
      unfolding e2(1) by auto
  qed
  have "\<exists>x3 g3. block k num phase bn_decay 3 x2 g2 = Inr (x3, g3)"
    using block_progress[OF k _ _ ph x2 e2(2), of num bn_decay] u2 by simp
  then obtain x3 g3 where r3: "block k num phase bn_decay 3 x2 g2 = Inr (x3, g3)" by blast
  show ?thesis
    unfolding residual_blocks_alt using r1 r2 r3 by (simp add: bind_def)
qed

lemma bind_InrE:
  assumes "bind m f g = Inr r"
  obtains x g1 where "m g = Inr (x, g1)" and "f x g1 = Inr r"
  using assms by (auto simp: bind_Inr)

lemma set_up_steps:
  assumes r: "set_up dl num k weight_decay bn_decay g = Inr ((l, a), g')"
    and ld: "load dl = (X, y, phase)"
  shows "\<exists>x0 g1 trunk g2 pooled g3 logits g4.
     conv X 3 16 1 SAME ''conv_0'' g = Inr (x0, g1) \<and>
     residual_blocks k num phase bn_decay [1..<4] x0 g1 = Inr (trunk, g2) \<and>
     last_unit phase bn_decay trunk g2 = Inr (pooled, g3) \<and>
     fully_connected pooled g3 = Inr (logits, g4) \<and>
     l = SoftmaxCrossEntropy y logits \<and>
     a = ReduceMeanAll (Cast (Equal (ArgMax logits 1) (ArgMax y 1))) \<and>
     g' = g4\<lparr>collections := (collections g4)
        (REGULARIZATION_LOSSES := collections g4 REGULARIZATION_LOSSES @
           map (decay_term weight_decay) (get_collection ''regularizable_variables'' g4))\<rparr>"
proof -
  from r ld have "bind (conv X 3 16 1 SAME ''conv_0'') (\<lambda>x.
      bind (residual_blocks k num phase bn_decay [1..<4] x) (\<lambda>x.
      bind (last_unit phase bn_decay x) (\<lambda>x.
      bind (fully_connected x) (\<lambda>linear_outputs.
      bind (lift (tf_nn_softmax_cross_entropy_with_logits_v2 y linear_outputs)) (\<lambda>losses.
      bind (\<lambda>g. add_weight_decay weight_decay (get_collection ''regularizable_variables'' g) g) (\<lambda>_.
      bind (lift (tf_argmax linear_outputs 1)) (\<lambda>y_pred.
      bind (lift (tf_argmax y 1)) (\<lambda>y_correct.
      bind (lift (tf_equal y_pred y_correct)) (\<lambda>correct_prediction.
      return (losses, ReduceMeanAll (Cast correct_prediction))))))))))) g = Inr ((l, a), g')"
    unfolding set_up_def by simp
  then obtain x0 g1 where r0: "conv X 3 16 1 SAME ''conv_0'' g = Inr (x0, g1)"
    and c1: "bind (residual_blocks k num phase bn_decay [1..<4] x0) (\<lambda>x.
      bind (last_unit phase bn_decay x) (\<lambda>x.
      bind (fully_connected x) (\<lambda>linear_outputs.
      bind (lift (tf_nn_softmax_cross_entropy_with_logits_v2 y linear_outputs)) (\<lambda>losses.
      bind (\<lambda>g. add_weight_decay weight_decay (get_collection ''regularizable_variables'' g) g) (\<lambda>_.
      bind (lift (tf_argmax linear_outputs 1)) (\<lambda>y_pred.
      bind (lift (tf_argmax y 1)) (\<lambda>y_correct.
      bind (lift (tf_equal y_pred y_correct)) (\<lambda>correct_prediction.
      return (losses, ReduceMeanAll (Cast correct_prediction)))))))))) g1 = Inr ((l, a), g')"
    by (rule bind_InrE)
  from c1 obtain trunk g2 where
    rb: "residual_blocks k num phase bn_decay [1..<4] x0 g1 = Inr (trunk, g2)"
    and c2: "bind (last_unit phase bn_decay trunk) (\<lambda>x.
      bind (fully_connected x) (\<lambda>linear_outputs.
      bind (lift (tf_nn_softmax_cross_entropy_with_logits_v2 y linear_outputs)) (\<lambda>losses.
      bind (\<lambda>g. add_weight_decay weight_decay (get_collection ''regularizable_variables'' g) g) (\<lambda>_.
      bind (lift (tf_argmax linear_outputs 1)) (\<lambda>y_pred.
      bind (lift (tf_argmax y 1)) (\<lambda>y_correct.
      bind (lift (tf_equal y_pred y_correct)) (\<lambda>correct_prediction.
      return (losses, ReduceMeanAll (Cast correct_prediction))))))))) g2 = Inr ((l, a), g')"
    by (rule bind_InrE)
  from c2 obtain pooled g3 where
    rl: "last_unit phase bn_decay trunk g2 = Inr (pooled, g3)"
    and c3: "bind (fully_connected pooled) (\<lambda>linear_outputs.
      bind (lift (tf_nn_softmax_cross_entropy_with_logits_v2 y linear_outputs)) (\<lambda>losses.
      bind (\<lambda>g. add_weight_decay weight_decay (get_collection ''regularizable_variables'' g) g) (\<lambda>_.
      bind (lift (tf_argmax linear_outputs 1)) (\<lambda>y_pred.
      bind (lift (tf_argmax y 1)) (\<lambda>y_correct.
      bind (lift (tf_equal y_pred y_correct)) (\<lambda>correct_prediction.
      return (losses, ReduceMeanAll (Cast correct_prediction)))))))) g3 = Inr ((l, a), g')"
    by (rule bind_InrE)
  from c3 obtain logits g4 where
    rf: "fully_connected pooled g3 = Inr (logits, g4)"
    and c4: "bind (lift (tf_nn_softmax_cross_entropy_with_logits_v2 y logits)) (\<lambda>losses.
      bind (\<lambda>g. add_weight_decay weight_decay (get_collection ''regularizable_variables'' g) g) (\<lambda>_.
      bind (lift (tf_argmax logits 1)) (\<lambda>y_pred.
      bind (lift (tf_argmax y 1)) (\<lambda>y_correct.
      bind (lift (tf_equal y_pred y_correct)) (\<lambda>correct_prediction.
      return (losses, ReduceMeanAll (Cast correct_prediction))))))) g4 = Inr ((l, a), g')"
    by (rule bind_InrE)
  from c4 have "l = SoftmaxCrossEntropy y logits \<and>
     a = ReduceMeanAll (Cast (Equal (ArgMax logits 1) (ArgMax y 1))) \<and>
     g' = g4\<lparr>collections := (collections g4)
        (REGULARIZATION_LOSSES := collections g4 REGULARIZATION_LOSSES @
           map (decay_term weight_decay) (get_collection ''regularizable_variables'' g4))\<rparr>"
    by (auto simp: bind_Inr lift_Inr return_Inr tf_simple_Inr add_weight_decay_eq)
  with r0 rb rl rf show ?thesis by blast
qed


lemma set_up_Inr:
  assumes r: "set_up dl num k weight_decay bn_decay g = Inr ((l, a), g')"
    and ld: "load dl = (X, y, phase)"
  obtains x0 trunk pooled W b g4 n h w c where
    "1 \<le> k" and "get_shape X = [n, h, w, c]" and "is_conv x0 X 3 16 1"
    and "strip_units (wrn_units_rev num k) trunk = Some x0"
    and "is_ReduceMean pooled \<and> reduce_axes pooled = [1, 2] \<and>
         is_bn_relu (reduce_input pooled) trunk"
    and "l = SoftmaxCrossEntropy y
           (Add (MatMul (Reshape pooled [- 1, int (64 * k)]) (Variable W)) (Variable b))"
    and "length (var_shape W) = 2 \<and> var_shape W ! 1 = 100 \<and> var_shape b = [100]"
    and "var_name W = scope g @ [''fully-connected'', ''fc'', ''W''] \<and>
         var_name b = scope g @ [''fully-connected'', ''fc'', ''b'']"
    and "W \<in> set (variables g') \<and> b \<in> set (variables g')"
    and "get_shape l = [n] \<and> get_shape (xent_logits l) = [n, Some 100]"
    and "builds_under (scope g) g g4"
    and "g' = g4\<lparr>collections := (collections g4)
        (REGULARIZATION_LOSSES := collections g4 REGULARIZATION_LOSSES @
           map (decay_term weight_decay) (get_collection ''regularizable_variables'' g4))\<rparr>"
proof -
  from set_up_steps[OF r ld] obtain x0 g1 trunk g2 pooled g3 logits g4 where
    r0: "conv X 3 16 1 SAME ''conv_0'' g = Inr (x0, g1)"
    and rb: "residual_blocks k num phase bn_decay [1..<4] x0 g1 = Inr (trunk, g2)"
    and rl: "last_unit phase bn_decay trunk g2 = Inr (pooled, g3)"
    and rf: "fully_connected pooled g3 = Inr (logits, g4)"
    and l: "l = SoftmaxCrossEntropy y logits"
    and g': "g' = g4\<lparr>collections := (collections g4)
        (REGULARIZATION_LOSSES := collections g4 REGULARIZATION_LOSSES @
           map (decay_term weight_decay) (get_collection ''regularizable_variables'' g4))\<rparr>"
    by blast
  from conv_shape[OF r0] obtain n h w c where
    X: "get_shape X = [n, h, w, c]" and x0: "get_shape x0 = [n, h, w, Some 16]"
    by (auto simp: conv_dim_SAME_1)
  note b0 = builds_under_layer[OF conv_builds[OF r0]]
  note bl = residual_blocks_Inr[OF rb x0]
  from bl(4) obtain h' w' where t: "get_shape trunk = [n, h', w', Some (64 * k)]" by blast
  note lu = last_unit_Inr[OF rl t]
  have c: "0 < 64 * k" using bl(1) by simp
  note fcn = fully_connected_Inr[OF rf lu(2) c]
  have e: "scope g1 = scope g" "scope g2 = scope g" "scope g3 = scope g"
    using builds_under_scope_eq[OF b0] builds_under_scope_eq[OF bl(2)]
      builds_under_scope_eq[OF lu(1)] by simp_all
  have b1: "builds_under (scope g) g1 g2" using bl(2) e by simp
  have b2: "builds_under (scope g) g2 g3" using builds_under_layer[OF lu(1)] e by simp
  have b3: "builds_under (scope g) g3 g4" using builds_under_layer[OF fcn(1)] e by simp
  have b: "builds_under (scope g) g g4"
    by (rule builds_under_trans[OF builds_under_trans[OF builds_under_trans[OF b0 b1] b2] b3])
  from fcn(3) obtain W b' where
    lg: "logits = Add (MatMul (Reshape pooled [- 1, int (64 * k)]) (Variable W)) (Variable b')"
    and W: "length (var_shape W) = 2 \<and> var_shape W ! 1 = 100 \<and> var_shape b' = [100]"
    and nm: "var_name W = scope g3 @ [''fully-connected'', ''fc'', ''W''] \<and>
      var_name b' = scope g3 @ [''fully-connected'', ''fc'', ''b'']"
    and mem: "W \<in> set (variables g4) \<and> b' \<in> set (variables g4)"
    by blast
  have sl: "get_shape l = [n] \<and> get_shape (xent_logits l) = [n, Some 100]"
    unfolding l using fcn(2) by simp
  have v: "variables g' = variables g4" unfolding g' by simp
  have l': "l = SoftmaxCrossEntropy y
           (Add (MatMul (Reshape pooled [- 1, int (64 * k)]) (Variable W)) (Variable b'))"
    unfolding l lg ..
  have nm': "var_name W = scope g @ [''fully-connected'', ''fc'', ''W''] \<and>
      var_name b' = scope g @ [''fully-connected'', ''fc'', ''b'']"
    using nm e(3) by simp
  have mem': "W \<in> set (variables g') \<and> b' \<in> set (variables g')"
    using mem v by simp
  show thesis
    by (rule that[OF bl(1) X conv_is_conv[OF r0] bl(5) lu(3) l' W nm' mem' sl b g'])
qed

lemma unit_name_range:
  assumes "i < 10"
  shows "''unit_last'' \<notin> range (unit_name i) \<and> ''fully-connected'' \<notin> range (unit_name i)"
proof -
  have "unit_name i j \<noteq> ''unit_last''" "unit_name i j \<noteq> ''fully-connected''" for j
    using unit_name_other[OF assms] by simp_all
  then show ?thesis by (metis rangeE)
qed

lemma set_up_progress:
  assumes ld: "load dl = (X, y, phase)"
    and X: "get_shape X = [n, h, w, Some c]" and y: "get_shape y = [n, Some 100]"
    and ph: "get_shape phase = []" and k: "1 \<le> k"
    and re: "reuse g \<noteq> Reuse" and u: "unused (scope g) g"
  shows "\<exists>l a g'. set_up dl num k weight_decay bn_decay g = Inr ((l, a), g')"
proof -
  have u0: "unused (scope g @ [t]) g" for t
    using unused_longer[OF u, of "scope g @ [t]"] by simp
  have "\<exists>x0 g1. conv X 3 16 1 SAME ''conv_0'' g = Inr (x0, g1)"
    using conv_progress[OF X _ _ _ re u0, of 3 16 1 "''conv_0''"] by simp
  then obtain x0 g1 where
    r0: "conv X 3 16 1 SAME ''conv_0'' g = Inr (x0, g1)" by blast
  note b0 = conv_builds[OF r0]
  have x0: "get_shape x0 = [n, h, w, Some 16]"
    using conv_shape[OF r0] X by (auto simp: conv_dim_SAME_1)
  have e1: "scope g1 = scope g" "reuse g1 \<noteq> Reuse"
    using builds_under_scope_eq[OF b0] builds_under_reuse_eq[OF b0] re by simp_all
  have u1: "unused (scope g1 @ [t]) g1" if "t \<noteq> ''conv_0''" for t
    unfolding e1(1) using unused_step[OF b0 u0] that by auto
  have "\<forall>i j. i < 4 \<longrightarrow> unused (scope g1 @ [unit_name i j]) g1"
    using u1 unit_name_other(1) by simp
  from residual_blocks_progress[OF k ph x0 e1(2) this, of num bn_decay] obtain trunk g2 where
    rb: "residual_blocks k num phase bn_decay [1..<4] x0 g1 = Inr (trunk, g2)" by blast
  note bl = residual_blocks_Inr[OF rb x0]
  from bl(4) obtain h' w' where t: "get_shape trunk = [n, h', w', Some (64 * k)]" by blast
  have e2: "scope g2 = scope g" "reuse g2 \<noteq> Reuse"
    using builds_under_scope_eq[OF bl(2)] builds_under_reuse_eq[OF bl(2)] e1 by simp_all
  have nin: "t \<notin> range (unit_name 1) \<union> range (unit_name 2) \<union> range (unit_name 3)"
    if "t = ''unit_last'' \<or> t = ''fully-connected''" for t
  proof -
    note rg = unit_name_range[of 1] unit_name_range[of 2] unit_name_range[of 3]
    from that show ?thesis
    proof
      assume "t = ''unit_last''"
      with rg show ?thesis by simp
    next
      assume "t = ''fully-connected''"
      with rg show ?thesis by simp
    qed
  qed
  have u2: "unused (scope g2 @ [t]) g2" if "t = ''unit_last'' \<or> t = ''fully-connected''" for t
  proof -
    have "unused (scope g1 @ [t]) g1" using u1[of t] that by auto
    from keeps_unusedD[OF bl(3) nin[OF that] this] show ?thesis
      using e1(1) e2(1) by simp
  qed
  have "\<exists>pooled g3. last_unit phase bn_decay trunk g2 = Inr (pooled, g3)"
    using last_unit_progress[OF t ph e2(2) u2, of bn_decay] by simp
  then obtain pooled g3 where
    rl: "last_unit phase bn_decay trunk g2 = Inr (pooled, g3)" by blast
  note lu = last_unit_Inr[OF rl t]
  have e3: "scope g3 = scope g" "reuse g3 \<noteq> Reuse"
    using builds_under_scope_eq[OF lu(1)] builds_under_reuse_eq[OF lu(1)] e2 by simp_all
  have u3: "unused (scope g3 @ [''fully-connected'']) g3"
    using unused_step[OF lu(1), of "''fully-connected''"] u2[of "''fully-connected''"]
    unfolding e3(1) e2(1) by simp
  have c: "0 < 64 * k" using k by simp
  from fully_connected_progress[OF lu(2) c e3(2) u3] obtain logits g4 where
    rf: "fully_connected pooled g3 = Inr (logits, g4)" by blast
  note fcn = fully_connected_Inr[OF rf lu(2) c]
  have sm: "tf_nn_softmax_cross_entropy_with_logits_v2 y logits = Inr (SoftmaxCrossEntropy y logits)"
    using fcn(2) y by (simp add: tf_simple_Inr broadcast_shape_same)
  have a1: "tf_argmax logits 1 = Inr (ArgMax logits 1)" "tf_argmax y 1 = Inr (ArgMax y 1)"
    using fcn(2) y by (simp_all add: tf_argmax_def)
  have a2: "tf_equal (ArgMax logits 1) (ArgMax y 1) = Inr (Equal (ArgMax logits 1) (ArgMax y 1))"
    using fcn(2) y by (simp add: tf_simple_Inr broadcast_shape_same)
  show ?thesis
    unfolding set_up_def using ld r0 rb rl rf sm a1 a2
    by (simp add: bind_def lift_def return_def add_weight_decay_eq)
qed

lemma example_set_up:
  assumes "1 \<le> k"
  shows "\<exists>dl l a g'. example_data_loading batch_size default_graph = Inr (dl, default_graph) \<and>
     load dl = (Input ''X'' [Some batch_size, Some 32, Some 32, Some 3],
                Input ''y'' [Some batch_size, Some 100], Input ''phase'' []) \<and>
     set_up dl num k weight_decay bn_decay default_graph = Inr ((l, a), g')"
proof -
  let ?dl = "\<lparr>load = (Input ''X'' [Some batch_size, Some 32, Some 32, Some 3],
                   Input ''y'' [Some batch_size, Some 100],
                   Input ''phase'' []),
           loader_train_init_op = Input ''train_init_op'' [],
           loader_train_eval_init_op = Input ''train_eval_init_op'' [],
           loader_test_init_op = Input ''test_init_op'' []\<rparr>"
  have "\<exists>l a g'. set_up ?dl num k weight_decay bn_decay default_graph = Inr ((l, a), g')"
    by (rule set_up_progress[where X = "Input ''X'' [Some batch_size, Some 32, Some 32, Some 3]"
          and y = "Input ''y'' [Some batch_size, Some 100]" and phase = "Input ''phase'' []"])
      (use assms in \<open>simp_all add: default_graph_fresh\<close>)
  then show ?thesis
    by (simp add: example_data_loading_def)
qed

lemma block_units_rev:
  assumes "1 \<le> n"
  shows "rev (block_units n c s) = replicate (n - 1) (FurtherUnit c) @ [FirstUnit c s]"
proof -
  have "[0..<n] = 0 # [1..<n]"
    using assms by (simp add: upt_conv_Cons)
  moreover have "map (\<lambda>j. if j = 0 then FirstUnit c s else FurtherUnit c) [1..<n] =
      map (\<lambda>j. FurtherUnit c) [1..<n]"
    by (rule map_cong) auto
  then have "map (\<lambda>j. if j = 0 then FirstUnit c s else FurtherUnit c) [1..<n] =
      replicate (n - 1) (FurtherUnit c)"
    by (simp add: map_replicate_const)
  ultimately show ?thesis
    by (simp add: block_units_def)
qed

lemma wrn_units_rev_eq: "1 \<le> n \<Longrightarrow> rev (wrn_units n k) = wrn_units_rev n k"
  by (simp add: wrn_units_def wrn_units_rev_def block_units_rev)

lemma trunk_of_losses:
  assumes "is_ReduceMean pooled \<and> reduce_axes pooled = [1, 2] \<and>
         is_bn_relu (reduce_input pooled) trunk"
    and "l = SoftmaxCrossEntropy y (Add (MatMul (Reshape pooled dims) W) b)"
  shows "trunk_of l = trunk"
  using assms by (simp add: trunk_of_def is_bn_relu_def)

section \<open>The constructor\<close>



section \<open>The architecture\<close>

text \<open>
  Claim C4. For \<open>n \<ge> 1\<close> residual units and width \<open>k\<close> (which is at least 1
  whenever \<open>set_up\<close> succeeds), the tensor that enters the classification head
  is an initial \<open>3 \<times> 3\<close> convolution of the images to 16 channels followed by
  three blocks of \<open>16 k\<close>, \<open>32 k\<close> and \<open>64 k\<close> channels, whose first units have
  strides 1, 2 and 2; each block has exactly \<open>n\<close> units, and every unit is the
  sum of its residual branch and its shortcut.
\<close>

theorem wrn_architecture:
  assumes "set_up dl num_residual_units k weight_decay bn_decay g = Inr ((l, a), g')"
    and "load dl = (X, y, phase)"
    and "1 \<le> num_residual_units"
  shows "\<exists>x0.
     strip_units (rev (wrn_units num_residual_units k)) (trunk_of l) = Some x0 \<and>
     is_conv x0 X 3 16 1 \<and>
     wrn_units num_residual_units k =
       block_units num_residual_units (16 * k) 1 @ block_units num_residual_units (32 * k) 2 @
       block_units num_residual_units (64 * k) 2 \<and>
     (\<forall>c s. length (block_units num_residual_units c s) = num_residual_units)"
proof -
  from set_up_Inr[OF assms(1,2)] obtain x0 trunk pooled W b where
    f: "is_conv x0 X 3 16 1"
      "strip_units (wrn_units_rev num_residual_units k) trunk = Some x0"
      "is_ReduceMean pooled \<and> reduce_axes pooled = [1, 2] \<and>
         is_bn_relu (reduce_input pooled) trunk"
      "l = SoftmaxCrossEntropy y
           (Add (MatMul (Reshape pooled [- 1, int (64 * k)]) (Variable W)) (Variable b))"
    by metis
  have "trunk_of l = trunk"
    using trunk_of_losses[OF f(3,4)] .
  with f(1,2) wrn_units_rev_eq[OF assms(3), of k] show ?thesis
    by (simp add: wrn_units_def block_units_def)
qed

text \<open>Two units per block at width 4, listed from the output backwards.\<close>

theorem wrn_architecture_witness:
  "\<exists>dl X y phase l a g' x0.
     load dl = (X, y, phase) \<and>
     set_up dl 2 4 (FloatLit ''0.0005'') (FloatLit ''0.9'') default_graph = Inr ((l, a), g') \<and>
     strip_units [FurtherUnit 256, FirstUnit 256 2, FurtherUnit 128, FirstUnit 128 2,
                  FurtherUnit 64, FirstUnit 64 1] (trunk_of l) = Some x0 \<and>
     is_conv x0 X 3 16 1"
proof -
  from example_set_up[of 4 128 2 "FloatLit ''0.0005''" "FloatLit ''0.9''"]
  obtain dl l a g' where
    ld: "load dl = (Input ''X'' [Some 128, Some 32, Some 32, Some 3],
                Input ''y'' [Some 128, Some 100], Input ''phase'' [])"
    and r: "set_up dl 2 4 (FloatLit ''0.0005'') (FloatLit ''0.9'') default_graph = Inr ((l, a), g')"
    by auto
  have u: "rev (wrn_units 2 4) = [FurtherUnit 256, FirstUnit 256 2, FurtherUnit 128,
      FirstUnit 128 2, FurtherUnit 64, FirstUnit 64 1]"
    by (simp add: wrn_units_def block_units_def upt_rec)
  from wrn_architecture[OF r ld] obtain x0 where
    "strip_units (rev (wrn_units 2 4)) (trunk_of l) = Some x0"
    "is_conv x0 (Input ''X'' [Some 128, Some 32, Some 32, Some 3]) 3 16 1"
    by auto
  then show ?thesis
    unfolding u using ld r by blast
qed

section \<open>The phase-initialization operations\<close>

text \<open>
  Claim C5. The constructed instance has three phase-initialization operations,
  \<open>train_init_op\<close>, \<open>train_eval_init_op\<close> and \<open>test_init_op\<close>; each is the group of
  exactly the corresponding initialization operation of its data loader.
\<close>

theorem init_ops_group_loader_ops:
  assumes "set_up_init cifar100_input_data_loading batch_size num_residual_units k weight_decay
             bn_decay g0 = Inr (self, g')"
  shows "(\<exists>g. cifar100_input_data_loading batch_size g0 = Inr (data_loading self, g)) \<and>
         train_init_op self = Group [loader_train_init_op (data_loading self)] \<and>
         train_eval_init_op self = Group [loader_train_eval_init_op (data_loading self)] \<and>
         test_init_op self = Group [loader_test_init_op (data_loading self)]"
  using assms unfolding set_up_init_def
  by (auto simp: bind_Inr return_Inr)

text \<open>With the example loader the three groups hold its three operations.\<close>

theorem init_ops_group_loader_ops_witness:
  "\<exists>self g'.
     set_up_init example_data_loading 128 1 1 (FloatLit ''0.0005'') (FloatLit ''0.9'') default_graph
       = Inr (self, g') \<and>
     train_init_op self = Group [Input ''train_init_op'' []] \<and>
     train_eval_init_op self = Group [Input ''train_eval_init_op'' []] \<and>
     test_init_op self = Group [Input ''test_init_op'' []]"
proof -
  from example_set_up[of 1 128 1 "FloatLit ''0.0005''" "FloatLit ''0.9''"]
  obtain dl l a g' where
    d: "example_data_loading 128 default_graph = Inr (dl, default_graph)"
    and r: "set_up dl 1 1 (FloatLit ''0.0005'') (FloatLit ''0.9'') default_graph = Inr ((l, a), g')"
    by auto
  let ?self = "\<lparr>data_loading = dl, losses = l, accuracy = a,
             train_init_op = Group [loader_train_init_op dl],
             train_eval_init_op = Group [loader_train_eval_init_op dl],
             test_init_op = Group [loader_test_init_op dl]\<rparr>"
  have i: "set_up_init example_data_loading 128 1 1 (FloatLit ''0.0005'') (FloatLit ''0.9'')
      default_graph = Inr (?self, g')"
    using d r by (simp add: set_up_init_def bind_def return_def)
  from init_ops_group_loader_ops[OF i] d
  have "train_init_op ?self = Group [Input ''train_init_op'' []] \<and>
     train_eval_init_op ?self = Group [Input ''train_eval_init_op'' []] \<and>
     test_init_op ?self = Group [Input ''test_init_op'' []]"
    by (auto simp: example_data_loading_def)
  with i show ?thesis by blast
qed

section \<open>The classification head\<close>

text \<open>
  Claim C6. The losses are the softmax cross-entropy between the labels and the
  logits; the logits are a matrix product plus a bias with exactly 100 output
  dimensions, applied to a reshape to two dimensions of a mean over the two
  spatial axes 1 and 2; the losses have one entry for each data point of the
  batch.
\<close>

theorem classification_head:
  assumes "set_up dl num_residual_units k weight_decay bn_decay g = Inr ((l, a), g')"
    and "load dl = (X, y, phase)"
  shows "\<exists>pooled dims W b.
     l = SoftmaxCrossEntropy y (Add (MatMul (Reshape pooled dims) (Variable W)) (Variable b)) \<and>
     is_ReduceMean pooled \<and> reduce_axes pooled = [1, 2] \<and>
     length dims = 2 \<and> length (get_shape (Reshape pooled dims)) = 2 \<and>
     length (var_shape W) = 2 \<and> var_shape W ! 1 = 100 \<and> var_shape b = [100] \<and>
     get_shape (Add (MatMul (Reshape pooled dims) (Variable W)) (Variable b))
       = [hd (get_shape X), Some 100] \<and>
     length (get_shape X) = 4 \<and> get_shape l = [hd (get_shape X)]"
proof -
  from set_up_Inr[OF assms] obtain pooled W b n h w c where
    f: "get_shape X = [n, h, w, c]"
      "is_ReduceMean pooled \<and> reduce_axes pooled = [1, 2]"
      "l = SoftmaxCrossEntropy y
           (Add (MatMul (Reshape pooled [- 1, int (64 * k)]) (Variable W)) (Variable b))"
      "length (var_shape W) = 2 \<and> var_shape W ! 1 = 100 \<and> var_shape b = [100]"
      "get_shape l = [n] \<and> get_shape (xent_logits l) = [n, Some 100]"
    by metis
  have "length (get_shape (Reshape pooled [- 1, int (64 * k)])) = 2"
    by (simp add: reshape_shape_def split: option.splits)
  with f show ?thesis
    by (intro exI[of _ pooled] exI[of _ "[- 1, int (64 * k)]"] exI[of _ W] exI[of _ b]) auto
qed

text \<open>For batches of 128 images the losses have shape \<open>[128]\<close>.\<close>

theorem classification_head_witness:
  "\<exists>dl l a g'.
     set_up dl 4 4 (FloatLit ''0.0005'') (FloatLit ''0.9'') default_graph = Inr ((l, a), g') \<and>
     get_shape l = [Some 128] \<and> get_shape (xent_logits l) = [Some 128, Some 100] \<and>
     is_ReduceMean (reshape_input (matmul_left (add_left (xent_logits l))))"
proof -
  from example_set_up[of 4 128 4 "FloatLit ''0.0005''" "FloatLit ''0.9''"]
  obtain dl l a g' where
    ld: "load dl = (Input ''X'' [Some 128, Some 32, Some 32, Some 3],
                Input ''y'' [Some 128, Some 100], Input ''phase'' [])"
    and r: "set_up dl 4 4 (FloatLit ''0.0005'') (FloatLit ''0.9'') default_graph = Inr ((l, a), g')"
    by auto
  from classification_head[OF r ld]
  have "get_shape l = [Some 128] \<and> get_shape (xent_logits l) = [Some 128, Some 100] \<and>
     is_ReduceMean (reshape_input (matmul_left (add_left (xent_logits l))))"
    by auto
  with r show ?thesis by blast
qed




section \<open>Weight decay\<close>



end
